theory Spec2Isabelle
  imports Main "HOL-Library.Char_ord" "HOL-Library.List_Lexorder"
begin

section \<open>Strings\<close>

text \<open>
  A JavaScript string is modelled as a \<^typ>\<open>string\<close>: one \<^typ>\<open>char\<close> per UTF-16 code
  unit; \<open>length\<close> is the \<open>.length\<close> of the source. The alphabet of the model is that of the
  code units below 256 (Latin-1) without the micro sign U+00B5 and the letter U+00FF,
  whose upper-case forms are code units above 255.
\<close>

definition nl :: char where
  "nl = CHR 0x0A"

definition cr :: char where
  "cr = CHR 0x0D"

text \<open>The class \<open>\s\<close> of regular expressions, which is also what \<open>trim()\<close> removes.\<close>

definition isSpace :: "char \<Rightarrow> bool" where
  "isSpace c \<longleftrightarrow> c = CHR 0x09 \<or> c = CHR 0x0A \<or> c = CHR 0x0B \<or> c = CHR 0x0C \<or> c = CHR 0x0D
     \<or> c = CHR '' '' \<or> c = CHR 0xA0"

text \<open>The class \<open>\d\<close>.\<close>

definition isDigit :: "char \<Rightarrow> bool" where
  "isDigit c \<longleftrightarrow> c \<in> set ''0123456789''"

definition isUpperAZ :: "char \<Rightarrow> bool" where
  "isUpperAZ c \<longleftrightarrow> c \<in> set ''ABCDEFGHIJKLMNOPQRSTUVWXYZ''"

text \<open>
  The letters that have two cases: \<open>a\<close> to \<open>z\<close>, U+00E0 to U+00F6 and U+00F8 to U+00FE, and
  at the same positions their upper-case forms \<open>A\<close> to \<open>Z\<close>, U+00C0 to U+00D6 and U+00D8 to
  U+00DE.
\<close>

definition lowerLetters :: string where
  "lowerLetters = ''abcdefghijklmnopqrstuvwxyz'' @
       [CHR 0xE0, CHR 0xE1, CHR 0xE2, CHR 0xE3, CHR 0xE4, CHR 0xE5, CHR 0xE6, CHR 0xE7,
        CHR 0xE8, CHR 0xE9, CHR 0xEA, CHR 0xEB, CHR 0xEC, CHR 0xED, CHR 0xEE, CHR 0xEF,
        CHR 0xF0, CHR 0xF1, CHR 0xF2, CHR 0xF3, CHR 0xF4, CHR 0xF5, CHR 0xF6, CHR 0xF8,
        CHR 0xF9, CHR 0xFA, CHR 0xFB, CHR 0xFC, CHR 0xFD, CHR 0xFE]"

definition upperLetters :: string where
  "upperLetters = ''ABCDEFGHIJKLMNOPQRSTUVWXYZ'' @
       [CHR 0xC0, CHR 0xC1, CHR 0xC2, CHR 0xC3, CHR 0xC4, CHR 0xC5, CHR 0xC6, CHR 0xC7,
        CHR 0xC8, CHR 0xC9, CHR 0xCA, CHR 0xCB, CHR 0xCC, CHR 0xCD, CHR 0xCE, CHR 0xCF,
        CHR 0xD0, CHR 0xD1, CHR 0xD2, CHR 0xD3, CHR 0xD4, CHR 0xD5, CHR 0xD6, CHR 0xD8,
        CHR 0xD9, CHR 0xDA, CHR 0xDB, CHR 0xDC, CHR 0xDD, CHR 0xDE]"

text \<open>
  \<open>toLowerChar c\<close> is the lower case of a character. \<open>toUpperChar c\<close> is its upper case where
  that is one code unit, and the character itself otherwise: this is the form under which
  a regular expression with the flag \<open>i\<close> compares characters. The upper case of the
  sharp s U+00DF is the text \<open>SS\<close>.
\<close>

definition toLowerChar :: "char \<Rightarrow> char" where
  "toLowerChar c = (case map_of (zip upperLetters lowerLetters) c of Some d \<Rightarrow> d | None \<Rightarrow> c)"

definition toUpperChar :: "char \<Rightarrow> char" where
  "toUpperChar c = (case map_of (zip lowerLetters upperLetters) c of Some d \<Rightarrow> d | None \<Rightarrow> c)"

text \<open>\<open>s.toLowerCase()\<close> and \<open>s.toUpperCase()\<close>\<close>

definition toLowerCase :: "string \<Rightarrow> string" where
  "toLowerCase s = map toLowerChar s"

definition toUpperCase :: "string \<Rightarrow> string" where
  "toUpperCase s = concat (map (\<lambda>c. if c = CHR 0xDF then ''SS'' else [toUpperChar c]) s)"

text \<open>\<open>s.trim()\<close>\<close>

definition trim :: "string \<Rightarrow> string" where
  "trim s = rev (dropWhile isSpace (rev (dropWhile isSpace s)))"

text \<open>
  \<open>s.startsWith(p)\<close>, and the match of the literal text \<open>p\<close> at the start of \<open>s\<close> under the
  flag \<open>i\<close> of a regular expression.
\<close>

fun startsWith :: "string \<Rightarrow> string \<Rightarrow> bool" where
  "startsWith s [] = True"
| "startsWith [] (p # ps) = False"
| "startsWith (c # cs) (p # ps) = (c = p \<and> startsWith cs ps)"

fun startsWithCI :: "string \<Rightarrow> string \<Rightarrow> bool" where
  "startsWithCI s [] = True"
| "startsWithCI [] (p # ps) = False"
| "startsWithCI (c # cs) (p # ps) = (toUpperChar c = toUpperChar p \<and> startsWithCI cs ps)"

text \<open>\<open>s.includes(p)\<close>\<close>

fun includesStr :: "string \<Rightarrow> string \<Rightarrow> bool" where
  "includesStr [] p = (p = [])"
| "includesStr (c # cs) p = (startsWith (c # cs) p \<or> includesStr cs p)"

text \<open>
  \<open>s.replace(/pat/g, rep)\<close> for a pattern that is a literal, non-empty text: the matches
  are found from left to right and do not overlap.
\<close>

fun replaceAll :: "string \<Rightarrow> string \<Rightarrow> string \<Rightarrow> string" where
  "replaceAll pat rep [] = []"
| "replaceAll pat rep (c # cs) =
     (if pat \<noteq> [] \<and> startsWith (c # cs) pat
      then rep @ replaceAll pat rep (drop (length pat - 1) cs)
      else c # replaceAll pat rep cs)"

text \<open>\<open>s.replace(/\s+/g, ' ')\<close>\<close>

function collapseSpaces :: "string \<Rightarrow> string" where
  "collapseSpaces [] = []"
| "collapseSpaces (c # cs) =
     (if isSpace c then CHR '' '' # collapseSpaces (dropWhile isSpace cs)
      else c # collapseSpaces cs)"
  by pat_completeness auto
termination
  by (relation "measure length") (auto simp: le_imp_less_Suc length_dropWhile_le)

text \<open>\<open>s.split(d)\<close> for a separator of one character: the result is never empty.\<close>

fun splitOn :: "char \<Rightarrow> string \<Rightarrow> string list" where
  "splitOn d [] = [[]]"
| "splitOn d (c # cs) =
     (if c = d then [] # splitOn d cs
      else (case splitOn d cs of [] \<Rightarrow> [[c]] | w # ws \<Rightarrow> (c # w) # ws))"

text \<open>\<open>xs.join(sep)\<close>\<close>

fun joinWith :: "string \<Rightarrow> string list \<Rightarrow> string" where
  "joinWith sep [] = []"
| "joinWith sep [x] = x"
| "joinWith sep (x # y # ys) = x @ sep @ joinWith sep (y # ys)"

section \<open>Text normalizer\<close>

text \<open>
  \<^verbatim>\<open>
  function cleanText(text) {
    return text
      .replace(/\r\n/g, '\n')
      .replace(/\s+/g, ' ')
      .replace(/- /g, '') // Remove hyphenation
      .trim();
  }
  \<close>
\<close>

definition cleanText :: "string \<Rightarrow> string" where
  "cleanText text =
     trim (replaceAll ''- '' '''' (collapseSpaces (replaceAll [cr, nl] [nl] text)))"

text \<open>
  \<^verbatim>\<open>
  function fixOcrErrors(text) {
    return text
      .replace(/COD/g, 'GOD') .replace(/6OD/g, 'GOD') .replace(/600/g, 'God')
      .replace(/CLORY/g, 'GLORY') .replace(/6LORY/g, 'GLORY') .replace(/cod/g, 'god')
      .replace(/th e /g, 'the ') .replace(/he aven/g, 'heaven')
      .replace(/ jvvhose /g, ' whose ') .replace(/ toglorify /g, ' to glorify ');
  }
  \<close>
\<close>

definition ocrTable :: "(string \<times> string) list" where
  "ocrTable =
     [(''COD'', ''GOD''), (''6OD'', ''GOD''), (''600'', ''God''), (''CLORY'', ''GLORY''),
      (''6LORY'', ''GLORY''), (''cod'', ''god''), (''th e '', ''the ''),
      (''he aven'', ''heaven''), ('' jvvhose '', '' whose ''),
      ('' toglorify '', '' to glorify '')]"

definition fixOcrErrors :: "string \<Rightarrow> string" where
  "fixOcrErrors text = foldl (\<lambda>t (pat, rep). replaceAll pat rep t) text ocrTable"

section \<open>Annotators\<close>

text \<open>
  \<open>new Set()\<close>, \<open>set.add(x)\<close> and \<open>Array.from(set)\<close>: a set keeps its elements in the order
  of their first insertion.
\<close>

definition setAdd :: "'a list \<Rightarrow> 'a \<Rightarrow> 'a list" where
  "setAdd xs x = (if x \<in> set xs then xs else xs @ [x])"

definition THEME_KEYWORDS :: "(string \<times> string list) list" where
  "THEME_KEYWORDS =
     [(''creation'', [''creation'', ''created'', ''create'', ''formed'', ''beginning'', ''origin'',
        ''genesis'', ''first day'']),
      (''angels'', [''angel'', ''seraph'', ''cherub'', ''ophan'', ''metatron'', ''sandalphon'',
        ''michael'', ''gabriel'', ''raphael'', ''ministering'']),
      (''demons'', [''demon'', ''satan'', ''lilith'', ''shedim'', ''samael'', ''evil spirit'',
        ''azazel'', ''prince of darkness'']),
      (''heaven'', [''heaven'', ''paradise'', ''throne'', ''celestial'', ''firmament'',
        ''divine chariot'', ''merkavah'', ''heavenly'']),
      (''hell'', [''hell'', ''gehenna'', ''gehinom'', ''underworld'', ''punishment'', ''sheol'']),
      (''messiah'', [''messiah'', ''redemption'', ''end of days'', ''olam haba'', ''world to come'',
        ''messianic'']),
      (''torah'', [''torah'', ''scripture'', ''law'', ''commandment'', ''covenant'', ''revelation'',
        ''sinai'', ''tablets'']),
      (''patriarchs'', [''abraham'', ''isaac'', ''jacob'', ''sarah'', ''rebecca'', ''rachel'',
        ''leah'', ''patriarch'']),
      (''moses'', [''moses'', ''pharaoh'', ''egypt'', ''plagues'', ''red sea'', ''burning bush'',
        ''sinai'']),
      (''adam-eve'', [''adam'', ''eve'', ''garden of eden'', ''eden'', ''forbidden fruit'',
        ''tree of knowledge'', ''first man'', ''first woman'']),
      (''noah'', [''noah'', ''flood'', ''ark'', ''deluge'', ''rainbow'']),
      (''mysticism'', [''kabbalah'', ''sefirot'', ''zohar'', ''mystical'', ''meditation'',
        ''divine name'', ''secret'', ''hidden'']),
      (''creatures'', [''leviathan'', ''behemoth'', ''ziz'', ''phoenix'', ''golem'', ''dragon'',
        [CHR ''r'', CHR ''e'', CHR 0x27, CHR ''e'', CHR ''m''], ''monster'', ''beast'']),
      (''soul'', [''soul'', ''neshama'', ''ruach'', ''nefesh'', ''spirit'', ''afterlife'',
        ''reincarnation'', ''treasury of souls'']),
      (''prophecy'', [''prophet'', ''prophecy'', ''vision'', ''dream'', ''revelation'', ''seer'']),
      (''temple'', [''temple'', ''tabernacle'', ''mishkan'', ''sanctuary'', ''holy of holies'',
        ''ark of the covenant'']),
      (''exile'', [''exile'', ''diaspora'', ''wandering'', ''scattered'', ''captivity'',
        ''babylon'']),
      (''holy-land'', [''jerusalem'', ''zion'', ''israel'', ''canaan'', ''promised land'',
        ''holy land''])]"

text \<open>
  \<^verbatim>\<open>
  function extractThemes(text) {
    const themes = new Set();
    const lowerText = text.toLowerCase();
    for (const [theme, keywords] of Object.entries(THEME_KEYWORDS)) {
      for (const keyword of keywords) {
        if (lowerText.includes(keyword)) { themes.add(theme); break; }
      }
    }
    return Array.from(themes);
  }
  \<close>
\<close>

definition extractThemes :: "string \<Rightarrow> string list" where
  "extractThemes text =
     (let lowerText = toLowerCase text
      in foldl (\<lambda>themes (theme, keywords).
                  if list_ex (\<lambda>keyword. includesStr lowerText keyword) keywords
                  then setAdd themes theme else themes)
           [] THEME_KEYWORDS)"

text \<open>
  The alternatives of \<open>BIBLICAL_PATTERN\<close>, in the order of \<open>BIBLICAL_BOOKS\<close>; an escaped
  period of the source (\<open>'Gen\\.'\<close>) is the literal period here.
\<close>

definition BIBLICAL_BOOKS :: "string list" where
  "BIBLICAL_BOOKS =
     [''Genesis'', ''Exodus'', ''Leviticus'', ''Numbers'', ''Deuteronomy'',
      ''Joshua'', ''Judges'', ''Ruth'', ''1 Samuel'', ''2 Samuel'', ''1 Kings'', ''2 Kings'',
      ''1 Chronicles'', ''2 Chronicles'', ''Ezra'', ''Nehemiah'', ''Esther'',
      ''Job'', ''Psalms'', ''Proverbs'', ''Ecclesiastes'', ''Song of Songs'', ''Song of Solomon'',
      ''Isaiah'', ''Jeremiah'', ''Lamentations'', ''Ezekiel'', ''Daniel'',
      ''Hosea'', ''Joel'', ''Amos'', ''Obadiah'', ''Jonah'', ''Micah'', ''Nahum'',
      ''Habakkuk'', ''Zephaniah'', ''Haggai'', ''Zechariah'', ''Malachi'',
      ''Bereishit'', ''Shemot'', ''Vayikra'', ''Bamidbar'', ''Devarim'',
      ''Tehillim'', ''Mishlei'', ''Kohelet'', ''Shir HaShirim'', ''Iyov'',
      ''Yeshayahu'', ''Yirmiyahu'', ''Yechezkel'', ''Daniyel'',
      ''Isa.'', ''Gen.'', ''Exod.'', ''Lev.'', ''Num.'', ''Deut.'',
      ''Ezek.'', ''Dan.'', ''Ps.'', ''Prov.'',
      ''B.'', ''Y.'', ''Midrash'', ''Pirkei'', ''Zohar'']"

text \<open>
  One attempt of the pattern
  \<^verbatim>\<open>(book|book|...)\s*(\d+)?[:\.]?(\d+)?(?:[-\<endash>](\d+))?\<close> with the flags \<open>gi\<close> at the start
  of \<open>s\<close>. The first alternative that matches is taken (what follows it can match the
  empty text, so no later alternative is ever tried), and each optional part takes all it
  can. The result is the four groups, a group that did not take part being empty, and
  the length of the match. Of the two dashes of the class only the hyphen is a character
  of this model.
\<close>

definition matchBiblical :: "string \<Rightarrow> (string \<times> string \<times> string \<times> string \<times> nat) option" where
  "matchBiblical s =
     (case find (\<lambda>b. startsWithCI s b) BIBLICAL_BOOKS of
        None \<Rightarrow> None
      | Some b \<Rightarrow>
          (let m1 = take (length b) s;
               r1 = dropWhile isSpace (drop (length b) s);
               m2 = takeWhile isDigit r1;
               r2 = dropWhile isDigit r1;
               r3 = (case r2 of [] \<Rightarrow> [] | c # cs \<Rightarrow> if c = CHR '':'' \<or> c = CHR ''.'' then cs else r2);
               m3 = takeWhile isDigit r3;
               r4 = dropWhile isDigit r3;
               m4 = (case r4 of [] \<Rightarrow> [] | c # cs \<Rightarrow> if c = CHR ''-'' then takeWhile isDigit cs else []);
               r5 = (if m4 = [] then r4 else dropWhile isDigit (tl r4))
           in Some (m1, m2, m3, m4, length s - length r5)))"

text \<open>\<open>s.replace(/\\./g, '')\<close>: a backslash and the character after it (not a line end).\<close>

fun stripBackslashPairs :: "string \<Rightarrow> string" where
  "stripBackslashPairs (a # b # cs) =
     (if a = CHR 0x5C \<and> b \<noteq> nl \<and> b \<noteq> cr then stripBackslashPairs cs
      else a # stripBackslashPairs (b # cs))"
| "stripBackslashPairs cs = cs"

text \<open>
  \<^verbatim>\<open>
      let ref = match[1].replace(/\\./g, '');
      if (match[2]) {
        ref += ` ${match[2]}`;
        if (match[3]) {
          ref += `:${match[3]}`;
          if (match[4]) { ref += `-${match[4]}`; }
        }
      }
      references.add(ref.trim());
  \<close>
\<close>

definition citation :: "string \<Rightarrow> string \<Rightarrow> string \<Rightarrow> string \<Rightarrow> string" where
  "citation m1 m2 m3 m4 =
     trim (stripBackslashPairs m1 @
       (if m2 \<noteq> [] then '' '' @ m2 @
          (if m3 \<noteq> [] then '':'' @ m3 @ (if m4 \<noteq> [] then ''-'' @ m4 else []) else [])
        else []))"

text \<open>
  The loop \<open>while ((match = pattern.exec(text)) !== null)\<close>: the citations of all matches,
  from left to right; the search goes on behind a match, and one character further
  where the pattern does not match.
\<close>

function matchAll :: "string \<Rightarrow> string list" where
  "matchAll [] = []"
| "matchAll (c # cs) =
     (case matchBiblical (c # cs) of
        None \<Rightarrow> matchAll cs
      | Some (m1, m2, m3, m4, n) \<Rightarrow> citation m1 m2 m3 m4 # matchAll (drop (n - 1) cs))"
  by pat_completeness auto
termination
  by (relation "measure length") auto

definition extractBiblicalReferences :: "string \<Rightarrow> string list" where
  "extractBiblicalReferences text = foldl setAdd [] (matchAll text)"

section \<open>Records\<close>

text \<open>
  The value of \<open>parseInt(digits)\<close> for a text of decimal digits is a Number: the integer
  that the digits denote when it is below \<open>2^53\<close>, and a double near it otherwise. The model
  keeps such a value as the digits it is read from.
\<close>

datatype jsNumber = ParseInt string

text \<open>
  The object built for a myth. \<open>mythId\<close> and \<open>sectionLabel\<close> are the properties \<open>id\<close> and
  \<open>section\<close>; \<open>number\<close> is absent from the records of the second source.
\<close>

record myth =
  mythId :: string
  number :: "jsNumber option"
  title :: string
  content :: string
  commentary :: string
  sources :: "string list"
  book :: string
  sectionLabel :: string
  sourceWork :: string
  biblicalReferences :: "string list"
  themes :: "string list"

text \<open>\<open>s.replace(/[^a-z0-9]+/g, '-')\<close>\<close>

definition isSlugChar :: "char \<Rightarrow> bool" where
  "isSlugChar c \<longleftrightarrow> c \<in> set ''abcdefghijklmnopqrstuvwxyz0123456789''"

function hyphenate :: "string \<Rightarrow> string" where
  "hyphenate [] = []"
| "hyphenate (c # cs) =
     (if isSlugChar c then c # hyphenate cs
      else CHR ''-'' # hyphenate (dropWhile (\<lambda>d. \<not> isSlugChar d) cs))"
  by pat_completeness auto
termination
  by (relation "measure length") (auto simp: le_imp_less_Suc length_dropWhile_le)

text \<open>\<open>s.replace(/^-|-$/g, '')\<close>\<close>

definition stripHyphens :: "string \<Rightarrow> string" where
  "stripHyphens s =
     (let t = (case s of [] \<Rightarrow> [] | c # cs \<Rightarrow> if c = CHR ''-'' then cs else s)
      in if t \<noteq> [] \<and> last t = CHR ''-'' then butlast t else t)"

text \<open>
  \<^verbatim>\<open>
  function generateId(title, source) {
    return `${source}-${title.toLowerCase().replace(/[^a-z0-9]+/g, '-')
                              .replace(/^-|-$/g, '')}`.substring(0, 80);
  }
  \<close>
\<close>

definition generateId :: "string \<Rightarrow> string \<Rightarrow> string" where
  "generateId ttl source = take 80 (source @ ''-'' @ stripHyphens (hyphenate (toLowerCase ttl)))"

text \<open>
  The text of a Number in a template literal, for the numbers of the source: the volume
  (1 or 2) and the number of a line, integers below \<open>10^21\<close>.
\<close>

fun showNat :: "nat \<Rightarrow> string" where
  "showNat n =
     (if n < 10 then [''0123456789'' ! n]
      else showNat (n div 10) @ [''0123456789'' ! (n mod 10)])"

declare showNat.simps [simp del]

text \<open>
  The three ways in which the source rewrites the words of a heading:
  \<open>w.charAt(0) + w.slice(1).toLowerCase()\<close> and
  \<open>w.charAt(0).toUpperCase() + w.slice(1).toLowerCase()\<close>, over \<open>split(' ')\<close>, joined by
  \<open>' '\<close>.
\<close>

definition lowerTail :: "string \<Rightarrow> string" where
  "lowerTail w = take 1 w @ toLowerCase (drop 1 w)"

definition capitalize :: "string \<Rightarrow> string" where
  "capitalize w = toUpperCase (take 1 w) @ toLowerCase (drop 1 w)"

definition lowerTails :: "string \<Rightarrow> string" where
  "lowerTails s = joinWith '' '' (map lowerTail (splitOn CHR '' '' s))"

definition capitalizeWords :: "string \<Rightarrow> string" where
  "capitalizeWords s = joinWith '' '' (map capitalize (splitOn CHR '' '' s))"

text \<open>The first position of a list at which a test holds.\<close>

fun findIndex :: "('a \<Rightarrow> bool) \<Rightarrow> 'a list \<Rightarrow> nat option" where
  "findIndex P [] = None"
| "findIndex P (x # xs) = (if P x then Some 0 else map_option Suc (findIndex P xs))"

section \<open>Source-A segmenter: \<open>parseSchwartzFile\<close>\<close>

datatype mode = Seeking | Content | Commentary | Sources | Skip

text \<open>The variables of the loop of \<open>parseSchwartzFile\<close>.\<close>

record schwartz =
  myths :: "myth list"
  currentBook :: string
  currentSection :: string
  currentMyth :: "myth option"
  contentBuffer :: "(mode \<times> string) list"
  mode :: mode

text \<open>\<open>/^\d+$/\<close> and \<open>/^[ivxlc]+$/i\<close>\<close>

definition isPageNumber :: "string \<Rightarrow> bool" where
  "isPageNumber line \<longleftrightarrow> line \<noteq> [] \<and> list_all isDigit line"

definition isRomanPage :: "string \<Rightarrow> bool" where
  "isRomanPage line \<longleftrightarrow> line \<noteq> [] \<and> list_all (\<lambda>c. toUpperChar c \<in> set ''IVXLC'') line"

text \<open>\<open>/^\d+\s+MYTHS OF/\<close>\<close>

definition isRunningHeader :: "string \<Rightarrow> bool" where
  "isRunningHeader line \<longleftrightarrow>
     (let r = dropWhile isDigit line; r' = dropWhile isSpace r
      in r \<noteq> line \<and> r' \<noteq> r \<and> startsWith r' ''MYTHS OF'')"

text \<open>The four tests after which the loop goes on to the next line.\<close>

definition isNoise :: "string \<Rightarrow> bool" where
  "isNoise line \<longleftrightarrow>
     isPageNumber line \<or> isRomanPage line \<or> startsWith line ''CONTENTS'' \<or> isRunningHeader line"

text \<open>\<open>/^BOOK\s+(ONE|TWO|THREE|FOUR|FIVE|SIX|SEVEN|EIGHT|NINE|TEN)$/i\<close>\<close>

definition isBookHeader :: "string \<Rightarrow> bool" where
  "isBookHeader line \<longleftrightarrow>
     startsWithCI line ''BOOK'' \<and>
     (let r = drop 4 line; r' = dropWhile isSpace r
      in r' \<noteq> r \<and> map toUpperChar r' \<in> set [''ONE'', ''TWO'', ''THREE'', ''FOUR'', ''FIVE'', ''SIX'',
           ''SEVEN'', ''EIGHT'', ''NINE'', ''TEN''])"

text \<open>\<open>/^MYTHS\s+(OF|ABOUT)/i\<close>\<close>

definition isSubtitle :: "string \<Rightarrow> bool" where
  "isSubtitle line \<longleftrightarrow>
     startsWithCI line ''MYTHS'' \<and>
     (let r = drop 5 line; r' = dropWhile isSpace r
      in r' \<noteq> r \<and> (startsWithCI r' ''OF'' \<or> startsWithCI r' ''ABOUT''))"

text \<open>\<open>/^\d+\./\<close> and \<open>/^BOOK\s+/\<close>\<close>

definition isNumbered :: "string \<Rightarrow> bool" where
  "isNumbered line \<longleftrightarrow> (let r = dropWhile isDigit line in r \<noteq> line \<and> startsWith r ''.'')"

definition isBookPrefix :: "string \<Rightarrow> bool" where
  "isBookPrefix line \<longleftrightarrow>
     startsWith line ''BOOK'' \<and> (case drop 4 line of [] \<Rightarrow> False | c # cs \<Rightarrow> isSpace c)"

text \<open>
  The test for a section header:
  \<^verbatim>\<open>
    if (line === line.toUpperCase() && line.length > 5 && line.length < 60 &&
        !line.match(/^\d+\./) && !line.match(/^BOOK\s+/) &&
        !line.match(/^Sources/i) && !line.match(/^Studies/i) && currentBook)
  \<close>
\<close>

definition isSectionHeader :: "string \<Rightarrow> string \<Rightarrow> bool" where
  "isSectionHeader line curBook \<longleftrightarrow>
     line = toUpperCase line \<and> length line > 5 \<and> length line < 60 \<and>
     \<not> isNumbered line \<and> \<not> isBookPrefix line \<and>
     \<not> startsWithCI line ''Sources'' \<and> \<not> startsWithCI line ''Studies'' \<and> curBook \<noteq> []"

text \<open>
  \<open>line.match(/^(\d+)\.\s+([A-Z][A-Z\s'',\-&?]+)$/)\<close>: the two groups of the match.
\<close>

definition isTitleChar :: "char \<Rightarrow> bool" where
  "isTitleChar c \<longleftrightarrow> isUpperAZ c \<or> isSpace c \<or> c = CHR 0x27 \<or> c = CHR '','' \<or> c = CHR ''-''
     \<or> c = CHR ''&'' \<or> c = CHR ''?''"

definition mythMatch :: "string \<Rightarrow> (string \<times> string) option" where
  "mythMatch line =
     (let ds = takeWhile isDigit line; r = dropWhile isDigit line
      in case r of
           [] \<Rightarrow> None
         | c # r1 \<Rightarrow>
             (let r2 = dropWhile isSpace r1
              in if ds \<noteq> [] \<and> c = CHR ''.'' \<and> r2 \<noteq> r1 \<and> isUpperAZ (hd r2) \<and> tl r2 \<noteq> [] \<and>
                    list_all isTitleChar (tl r2)
                 then Some (ds, r2) else None))"

text \<open>\<open>/^Sources\s*:?\s*$/i\<close> for the word \<open>Sources\<close>, \<open>/^Studies\s*:?\s*$/i\<close> for \<open>Studies\<close>.\<close>

definition isHeading :: "string \<Rightarrow> string \<Rightarrow> bool" where
  "isHeading word line \<longleftrightarrow>
     startsWithCI line word \<and>
     (let r = dropWhile isSpace (drop (length word) line);
          r' = (case r of [] \<Rightarrow> [] | c # cs \<Rightarrow> if c = CHR '':'' then cs else r)
      in dropWhile isSpace r' = [])"

text \<open>
  \<^verbatim>\<open>
  /^(This (biblical|myth|passage|story|legend|vision|account|text|is)|Here (the|God|we)|
     In this (myth|passage|interpretation)|According to|One way of reading|A close variant|
     The idea|While|So too|Some say|There are many)/i
  \<close>
\<close>

definition leadIns :: "string list" where
  "leadIns =
     [''This biblical'', ''This myth'', ''This passage'', ''This story'', ''This legend'',
      ''This vision'', ''This account'', ''This text'', ''This is'',
      ''Here the'', ''Here God'', ''Here we'',
      ''In this myth'', ''In this passage'', ''In this interpretation'',
      ''According to'', ''One way of reading'', ''A close variant'', ''The idea'', ''While'',
      ''So too'', ''Some say'', ''There are many'']"

definition hasLeadIn :: "string \<Rightarrow> bool" where
  "hasLeadIn line \<longleftrightarrow> list_ex (\<lambda>p. startsWithCI line p) leadIns"

text \<open>
  \<^verbatim>\<open>
          const totalContentLength = contentBuffer.reduce((sum, l) => sum + l.text.length, 0);
          const isCommentaryStart = totalContentLength > 300 &&
              /^(This ...)/i.test(line) &&
              !line.includes('"') && !line.includes('"') &&
              !line.includes('said') && !line.includes('spoke');
  \<close>
\<close>

definition totalContentLength :: "(mode \<times> string) list \<Rightarrow> nat" where
  "totalContentLength buf = foldl (\<lambda>sum l. sum + length (snd l)) 0 buf"

definition isCommentaryStart :: "(mode \<times> string) list \<Rightarrow> string \<Rightarrow> bool" where
  "isCommentaryStart buf line \<longleftrightarrow>
     totalContentLength buf > 300 \<and> hasLeadIn line \<and>
     \<not> includesStr line [CHR 0x22] \<and> \<not> includesStr line [CHR 0x22] \<and>
     \<not> includesStr line ''said'' \<and> \<not> includesStr line ''spoke''"

text \<open>
  Saving the current myth:
  \<^verbatim>\<open>
      if (currentMyth) {
        currentMyth.content = contentBuffer.filter(l => l.mode === 'content')
                                           .map(l => l.text).join(' ');
        currentMyth.commentary = contentBuffer.filter(l => l.mode === 'commentary')
                                              .map(l => l.text).join(' ');
        if (currentMyth.content.length > 50) { myths.push(currentMyth); }
      }
  \<close>
\<close>

definition textOf :: "mode \<Rightarrow> (mode \<times> string) list \<Rightarrow> string" where
  "textOf m buf = joinWith '' '' (map snd (filter (\<lambda>l. fst l = m) buf))"

definition saveMyth :: "schwartz \<Rightarrow> myth list" where
  "saveMyth st =
     (case currentMyth st of
        None \<Rightarrow> myths st
      | Some m \<Rightarrow>
          (let m' = m\<lparr>content := textOf Content (contentBuffer st),
                       commentary := textOf Commentary (contentBuffer st)\<rparr>
           in if length (content m') > 50 then myths st @ [m'] else myths st))"

text \<open>
  The search for the subtitle of a book in the three lines after its header
  (\<open>for (let j = 1; j <= 3; j++)\<close>, \<open>lines[i + j]?.trim()\<close>): the position found, from 0.
\<close>

definition findSubtitle :: "string list \<Rightarrow> nat option" where
  "findSubtitle rest =
     findIndex (\<lambda>l. let nextLine = trim l in nextLine \<noteq> [] \<and> isSubtitle (fixOcrErrors nextLine))
       (take 3 rest)"

text \<open>
  The source references of a line:
  \<open>line.replace(/;/g, ',').split(',').map(s => s.trim()).filter(s => s.length > 2)\<close>
\<close>

definition sourceParts :: "string \<Rightarrow> string list" where
  "sourceParts line =
     filter (\<lambda>s. length s > 2) (map trim (splitOn CHR '','' (replaceAll '';'' '','' line)))"

text \<open>
  The object that the loop builds at the title of a myth, from the two groups of
  \<open>mythMatch\<close>:
  \<^verbatim>\<open>
      const title = mythMatch[2].trim().split(' ')
        .map(w => w.charAt(0) + w.slice(1).toLowerCase()).join(' ');
      currentMyth = {
        id: generateId(title, 'schwartz'), number: parseInt(mythMatch[1]), title: title,
        content: '', commentary: '', sources: [],
        book: currentBook, section: currentSection, sourceWork: 'schwartz',
        biblicalReferences: [], themes: []
      };
  \<close>
\<close>

definition newMyth :: "schwartz \<Rightarrow> string \<Rightarrow> string \<Rightarrow> myth" where
  "newMyth st num caps =
     (let ttl = lowerTails (trim caps)
      in \<lparr>mythId = generateId ttl ''schwartz'', number = Some (ParseInt num),
          title = ttl, content = [], commentary = [], sources = [],
          book = currentBook st, sectionLabel = currentSection st,
          sourceWork = ''schwartz'', biblicalReferences = [], themes = []\<rparr>)"

text \<open>
  The body of the loop at the line \<open>lines[i]\<close>; \<open>rest\<close> are the lines after it. The result is
  the new state and the number of following lines that the loop passes over (\<open>i += j\<close>).
\<close>

definition schwartzStep :: "schwartz \<Rightarrow> string \<Rightarrow> string list \<Rightarrow> schwartz \<times> nat" where
  "schwartzStep st raw rest =
     (let line = trim raw in
      if line = [] then (st, 0)
      else if isNoise line then (st, 0)
      else
        let line = fixOcrErrors line in
        if isBookHeader line then
          (let saved = saveMyth st;
               found = findSubtitle rest;
               newBook = (case found of
                            None \<Rightarrow> line
                          | Some k \<Rightarrow> line @ '': '' @ lowerTails (fixOcrErrors (trim (rest ! k))))
           in (st\<lparr>myths := saved, currentBook := newBook, currentMyth := None,
                   contentBuffer := [], mode := Seeking\<rparr>,
               case found of None \<Rightarrow> 0 | Some k \<Rightarrow> k + 1))
        else if isSectionHeader line (currentBook st) then
          (st\<lparr>myths := saveMyth st, currentSection := capitalizeWords line, currentMyth := None,
               contentBuffer := [], mode := Seeking\<rparr>, 0)
        else
          case mythMatch line of
            Some (num, caps) \<Rightarrow>
              (st\<lparr>myths := saveMyth st, currentMyth := Some (newMyth st num caps),
                  contentBuffer := [], mode := Content\<rparr>, 0)
          | None \<Rightarrow>
              if isHeading ''Sources'' line then (st\<lparr>mode := Sources\<rparr>, 0)
              else if isHeading ''Studies'' line then (st\<lparr>mode := Skip\<rparr>, 0)
              else
                (case currentMyth st of
                   None \<Rightarrow> (st, 0)
                 | Some m \<Rightarrow>
                     if mode st = Skip \<or> mode st = Seeking then (st, 0)
                     else if mode st = Sources
                     then (st\<lparr>currentMyth := Some (m\<lparr>sources := sources m @ sourceParts line\<rparr>)\<rparr>, 0)
                     else
                       (let mode' = (if mode st = Content \<and> contentBuffer st \<noteq> [] \<and>
                                        isCommentaryStart (contentBuffer st) line
                                     then Commentary else mode st)
                        in (st\<lparr>contentBuffer := contentBuffer st @ [(mode', line)],
                                mode := mode'\<rparr>, 0))))"

text \<open>\<open>for (let i = contentStart; i < lines.length; i++)\<close>, on the lines from \<open>i\<close> on.\<close>

function schwartzLoop :: "schwartz \<Rightarrow> string list \<Rightarrow> schwartz" where
  "schwartzLoop st [] = st"
| "schwartzLoop st (l # rest) =
     schwartzLoop (fst (schwartzStep st l rest)) (drop (snd (schwartzStep st l rest)) rest)"
  by pat_completeness auto
termination
  by (relation "measure (\<lambda>(st, ls). length ls)") auto

text \<open>
  \<^verbatim>\<open>
  return myths.map(myth => {
    const fullText = `${myth.title} ${myth.content} ${myth.commentary}`;
    return { ...myth,
      content: cleanText(myth.content), commentary: cleanText(myth.commentary),
      biblicalReferences: extractBiblicalReferences(fullText),
      themes: extractThemes(fullText),
      sources: myth.sources.filter(s => s.length > 2) };
  });
  \<close>
\<close>

definition postSchwartz :: "myth \<Rightarrow> myth" where
  "postSchwartz m =
     (let fullText = title m @ '' '' @ content m @ '' '' @ commentary m
      in m\<lparr>content := cleanText (content m),
            commentary := cleanText (commentary m),
            biblicalReferences := extractBiblicalReferences fullText,
            themes := extractThemes fullText,
            sources := filter (\<lambda>s. length s > 2) (sources m)\<rparr>)"

text \<open>
  The start of the content: the first line from line 6000 on that is \<open>BOOK ONE\<close>, and 0
  when there is none.
\<close>

definition schwartzStart :: "string list \<Rightarrow> nat" where
  "schwartzStart lines =
     (case findIndex (\<lambda>l. trim l = ''BOOK ONE'') (drop 6000 lines) of
        None \<Rightarrow> 0 | Some k \<Rightarrow> 6000 + k)"

definition schwartzInit :: schwartz where
  "schwartzInit = \<lparr>myths = [], currentBook = [], currentSection = [], currentMyth = None,
     contentBuffer = [], mode = Seeking\<rparr>"

text \<open>The array \<open>myths\<close> at the end of the loop and after the last myth is saved.\<close>

definition schwartzDrafts :: "string list \<Rightarrow> myth list" where
  "schwartzDrafts lines = saveMyth (schwartzLoop schwartzInit (drop (schwartzStart lines) lines))"

text \<open>
  \<open>parseSchwartzFile\<close> on the lines \<open>content.split('\n').map(line => line.trim())\<close>: what it
  writes to the console, and the array it returns.
\<close>

definition parseSchwartzLines :: "string list \<Rightarrow> string list \<times> myth list" where
  "parseSchwartzLines lines =
     (if schwartzStart lines = 0
      then ([''  Warning: Could not find content start marker''], [])
      else ([''  Content starts at line '' @ showNat (schwartzStart lines)],
            map postSchwartz (schwartzDrafts lines)))"

definition parseSchwartzFile :: "string \<Rightarrow> string list \<times> myth list" where
  "parseSchwartzFile text = parseSchwartzLines (map trim (splitOn nl text))"

section \<open>Source-B segmenter: \<open>parseGinzbergFile\<close>\<close>

text \<open>The variables of the loop of \<open>parseGinzbergFile\<close>.\<close>

record ginzberg =
  mythsG :: "myth list"
  currentChapter :: string
  currentMythG :: "myth option"
  contentBufferG :: "string list"

text \<open>\<open>romanPattern = /^(I{1,3}V?|VI{0,3})\.?\s*$/\<close>\<close>

definition romanPattern :: "string \<Rightarrow> bool" where
  "romanPattern line \<longleftrightarrow>
     (\<exists>r \<in> set [''I'', ''II'', ''III'', ''IV'', ''IIV'', ''IIIV'', ''V'', ''VI'', ''VII'', ''VIII''].
        startsWith line r \<and>
        (let t = drop (length r) line;
             t' = (case t of [] \<Rightarrow> [] | c # cs \<Rightarrow> if c = CHR ''.'' then cs else t)
         in dropWhile isSpace t' = []))"

text \<open>\<open>s.replace('.', '')\<close>: the first period only.\<close>

fun dropFirstPeriod :: "string \<Rightarrow> string" where
  "dropFirstPeriod [] = []"
| "dropFirstPeriod (c # cs) = (if c = CHR ''.'' then cs else c # dropFirstPeriod cs)"

text \<open>\<open>s.replace(/\[\d+\]/g, '')\<close>\<close>

function stripFootnotes :: "string \<Rightarrow> string" where
  "stripFootnotes [] = []"
| "stripFootnotes (c # cs) =
     (if c = CHR ''['' \<and> takeWhile isDigit cs \<noteq> [] \<and> startsWith (dropWhile isDigit cs) '']''
      then stripFootnotes (drop 1 (dropWhile isDigit cs))
      else c # stripFootnotes cs)"
  by pat_completeness auto
termination
  by (relation "measure length")
    (auto simp: less_Suc_eq_le intro: order_trans[OF diff_le_self length_dropWhile_le])

text \<open>
  \<^verbatim>\<open>
      if (currentMyth && contentBuffer.length > 0) {
        currentMyth.content = contentBuffer.join(' ');
        if (currentMyth.content.length > 100) { myths.push(currentMyth); }
      }
  \<close>
\<close>

definition saveMythG :: "ginzberg \<Rightarrow> myth list" where
  "saveMythG st =
     (case currentMythG st of
        None \<Rightarrow> mythsG st
      | Some m \<Rightarrow>
          if contentBufferG st \<noteq> [] \<and> length (joinWith '' '' (contentBufferG st)) > 100
          then mythsG st @ [m\<lparr>content := joinWith '' '' (contentBufferG st)\<rparr>]
          else mythsG st)"

text \<open>
  The search for the title of a chapter, in the lines \<open>i + 1\<close> to \<open>min(i + 5, lines.length) - 1\<close>:
  \<^verbatim>\<open>
        if (nextLine && nextLine === nextLine.toUpperCase() && nextLine.length > 3 &&
            !romanPattern.test(nextLine))
  \<close>
\<close>

definition findChapterTitle :: "string list \<Rightarrow> nat option" where
  "findChapterTitle rest =
     findIndex (\<lambda>l. let nextLine = trim l
                    in nextLine \<noteq> [] \<and> nextLine = toUpperCase nextLine \<and> length nextLine > 3 \<and>
                       \<not> romanPattern nextLine)
       (take 4 rest)"

text \<open>
  The body of the loop at the line \<open>lines[i]\<close>, for the volume \<open>volume\<close>; \<open>rest\<close> are the
  lines after it. The result is the new state and the number of following lines that the
  loop passes over (\<open>i = j\<close>).
\<close>

definition ginzbergStep :: "nat \<Rightarrow> ginzberg \<Rightarrow> string \<Rightarrow> string list \<Rightarrow> ginzberg \<times> nat" where
  "ginzbergStep volume st raw rest =
     (let line = trim raw in
      if line = [] then (st, 0)
      else if isPageNumber line then (st, 0)
      else if romanPattern line then
        (let saved = saveMythG st;
             roman = trim (dropFirstPeriod line);
             found = findChapterTitle rest;
             chapter = (case found of
                          None \<Rightarrow> currentChapter st
                        | Some k \<Rightarrow> roman @ ''. '' @ lowerTails (trim (rest ! k)))
         in (st\<lparr>mythsG := saved, currentChapter := chapter, currentMythG := None,
                 contentBufferG := []\<rparr>,
             case found of None \<Rightarrow> 0 | Some k \<Rightarrow> k + 1))
      else if line = toUpperCase line \<and> length line > 5 \<and> length line < 80 \<and>
              \<not> romanPattern line \<and> currentChapter st \<noteq> [] \<and> \<not> includesStr line ''***''
      then
        (let ttl = lowerTails line
         in (st\<lparr>mythsG := saveMythG st,
                 currentMythG := Some
                   \<lparr>mythId = generateId (''v'' @ showNat volume @ ''-'' @ ttl) ''ginzberg'',
                    number = None, title = ttl, content = [], commentary = [], sources = [],
                    book = currentChapter st, sectionLabel = [],
                    sourceWork = ''ginzberg-v'' @ showNat volume,
                    biblicalReferences = [], themes = []\<rparr>,
                 contentBufferG := []\<rparr>, 0))
      else
        (case currentMythG st of
           None \<Rightarrow> (st, 0)
         | Some m \<Rightarrow>
             (let line = stripFootnotes line
              in if line \<noteq> [] then (st\<lparr>contentBufferG := contentBufferG st @ [line]\<rparr>, 0)
                 else (st, 0))))"

function ginzbergLoop :: "nat \<Rightarrow> ginzberg \<Rightarrow> string list \<Rightarrow> ginzberg" where
  "ginzbergLoop volume st [] = st"
| "ginzbergLoop volume st (l # rest) =
     ginzbergLoop volume (fst (ginzbergStep volume st l rest))
       (drop (snd (ginzbergStep volume st l rest)) rest)"
  by pat_completeness auto
termination
  by (relation "measure (\<lambda>(v, st, ls). length ls)") auto

text \<open>
  The search for the start of the content, from the line \<open>i\<close> on (the source starts it at
  line 400):
  \<^verbatim>\<open>
    if (line === 'I' || line === 'I.') {
      const nextLine = lines[i + 1]?.trim().toUpperCase();
      if (nextLine && (nextLine.includes('CREATION') || nextLine.includes('JOSEPH'))) {
        contentStart = i; break;
      }
    }
    if (line === 'THE CREATION OF THE WORLD' || line === 'JOSEPH') {
      contentStart = i - 1; break;
    }
  \<close>
\<close>

fun findChapterOne :: "string list \<Rightarrow> nat \<Rightarrow> nat option" where
  "findChapterOne [] i = None"
| "findChapterOne (l # rest) i =
     (let line = trim l in
      if (line = ''I'' \<or> line = ''I.'') \<and>
         (case rest of
            [] \<Rightarrow> False
          | n # _ \<Rightarrow> (let nextLine = toUpperCase (trim n)
                      in nextLine \<noteq> [] \<and>
                         (includesStr nextLine ''CREATION'' \<or> includesStr nextLine ''JOSEPH'')))
      then Some i
      else if line = ''THE CREATION OF THE WORLD'' \<or> line = ''JOSEPH'' then Some (i - 1)
      else findChapterOne rest (i + 1))"

definition ginzbergStart :: "string list \<Rightarrow> nat" where
  "ginzbergStart lines = (case findChapterOne (drop 400 lines) 400 of None \<Rightarrow> 0 | Some k \<Rightarrow> k)"

definition ginzbergInit :: ginzberg where
  "ginzbergInit = \<lparr>mythsG = [], currentChapter = [], currentMythG = None, contentBufferG = []\<rparr>"

definition ginzbergDrafts :: "string list \<Rightarrow> nat \<Rightarrow> myth list" where
  "ginzbergDrafts lines volume =
     saveMythG (ginzbergLoop volume ginzbergInit (drop (ginzbergStart lines) lines))"

text \<open>
  \<^verbatim>\<open>
  return myths.map(myth => ({ ...myth,
    content: cleanText(myth.content),
    biblicalReferences: extractBiblicalReferences(myth.content),
    themes: extractThemes(myth.content) }));
  \<close>
\<close>

definition postGinzberg :: "myth \<Rightarrow> myth" where
  "postGinzberg m =
     m\<lparr>content := cleanText (content m),
       biblicalReferences := extractBiblicalReferences (content m),
       themes := extractThemes (content m)\<rparr>"

definition parseGinzbergLines :: "string list \<Rightarrow> nat \<Rightarrow> string list \<times> myth list" where
  "parseGinzbergLines lines volume =
     ([''  Content starts at line '' @ showNat (ginzbergStart lines)],
      map postGinzberg (ginzbergDrafts lines volume))"

definition parseGinzbergFile :: "string \<Rightarrow> nat \<Rightarrow> string list \<times> myth list" where
  "parseGinzbergFile text volume = parseGinzbergLines (map trim (splitOn nl text)) volume"

section \<open>Corpus aggregator: \<open>main\<close>\<close>

text \<open>
  An object used as a table of counts, its keys in the order of their insertion:
  \<open>obj[k] = (obj[k] || 0) + 1\<close>. The keys here are theme identifiers and book labels.
\<close>

fun increment :: "(string \<times> nat) list \<Rightarrow> string \<Rightarrow> (string \<times> nat) list" where
  "increment [] k = [(k, 1)]"
| "increment ((k', n) # obj) k =
     (if k' = k then (k', n + 1) # obj else (k', n) # increment obj k)"

definition countOf :: "(string \<times> nat) list \<Rightarrow> string \<Rightarrow> nat" where
  "countOf obj k = (case map_of obj k of None \<Rightarrow> 0 | Some n \<Rightarrow> n)"

record stats =
  total :: nat
  bySources :: "(string \<times> nat) list"
  themeCounts :: "(string \<times> nat) list"
  bookCounts :: "(string \<times> nat) list"

record filterOptions =
  sourceOptions :: "string list"
  themeOptions :: "string list"
  bookOptions :: "string list"

record database =
  generated :: string
  version :: string
  dbStats :: stats
  dbFilterOptions :: filterOptions
  allMyths :: "myth list"

text \<open>
  \<^verbatim>\<open>
  allMyths.forEach(myth => {
    myth.themes.forEach(theme => { stats.themes[theme] = (stats.themes[theme] || 0) + 1; });
    if (myth.book) { stats.books[myth.book] = (stats.books[myth.book] || 0) + 1; }
  });
  \<close>
\<close>

definition countThemes :: "myth list \<Rightarrow> (string \<times> nat) list" where
  "countThemes ms = foldl (\<lambda>obj m. foldl increment obj (themes m)) [] ms"

definition countBooks :: "myth list \<Rightarrow> (string \<times> nat) list" where
  "countBooks ms = foldl (\<lambda>obj m. if book m \<noteq> [] then increment obj (book m) else obj) [] ms"

text \<open>
  \<^verbatim>\<open>
  const filterOptions = {
    sources: ['schwartz', 'ginzberg-v1', 'ginzberg-v2'],
    themes: Object.keys(stats.themes).sort((a, b) => stats.themes[b] - stats.themes[a]),
    books: Object.keys(stats.books).sort()
  };
  \<close>
  The sort of an array is stable; without a comparison function it orders texts by their
  code units.
\<close>

definition buildFilterOptions :: "stats \<Rightarrow> filterOptions" where
  "buildFilterOptions st =
     \<lparr>sourceOptions = [''schwartz'', ''ginzberg-v1'', ''ginzberg-v2''],
      themeOptions = sort_key (\<lambda>t. - int (countOf (themeCounts st) t)) (map fst (themeCounts st)),
      bookOptions = sort (map fst (bookCounts st))\<rparr>"

text \<open>
  The database that \<open>main\<close> writes, from the time \<open>now\<close> of the run and the texts of the
  three files.
\<close>

definition assemble :: "string \<Rightarrow> myth list \<Rightarrow> myth list \<Rightarrow> myth list \<Rightarrow> database" where
  "assemble now schwartzMyths ginzberg1Myths ginzberg2Myths =
     (let ms = schwartzMyths @ ginzberg1Myths @ ginzberg2Myths;
          st = \<lparr>total = length ms,
                bySources = [(''schwartz'', length schwartzMyths),
                             (''ginzberg-v1'', length ginzberg1Myths),
                             (''ginzberg-v2'', length ginzberg2Myths)],
                themeCounts = countThemes ms,
                bookCounts = countBooks ms\<rparr>
      in \<lparr>generated = now, version = ''1.0.0'', dbStats = st,
          dbFilterOptions = buildFilterOptions st, allMyths = ms\<rparr>)"

definition main :: "string \<Rightarrow> string \<Rightarrow> string \<Rightarrow> string \<Rightarrow> database" where
  "main now schwartzContent ginzberg1Content ginzberg2Content =
     assemble now (snd (parseSchwartzFile schwartzContent))
       (snd (parseGinzbergFile ginzberg1Content 1))
       (snd (parseGinzbergFile ginzberg2Content 2))"

section \<open>Predicates used in the proofs\<close>

text \<open>
  A text is \<open>spaced\<close> when its only white space is the space character and no two spaces
  are adjacent, and \<open>unhyphenated\<close> when no hyphen is followed by a space.
\<close>

definition spaced :: "string \<Rightarrow> bool" where
  "spaced s \<longleftrightarrow> (\<forall>c \<in> set s. isSpace c \<longrightarrow> c = CHR '' '')
     \<and> successively (\<lambda>a b. \<not> (a = CHR '' '' \<and> b = CHR '' '')) s"

definition unhyphenated :: "string \<Rightarrow> bool" where
  "unhyphenated s \<longleftrightarrow> successively (\<lambda>a b. \<not> (a = CHR ''-'' \<and> b = CHR '' '')) s"

definition rmh :: "string \<Rightarrow> string" where
  "rmh = replaceAll ''- '' []"

definition rmhP :: "string \<Rightarrow> bool" where
  "rmhP s \<longleftrightarrow> spaced (rmh s) \<and> unhyphenated (rmh s) \<and>
     (rmh s = [] \<or> hd (rmh s) \<noteq> CHR '' '' \<or> (s \<noteq> [] \<and> hd s = CHR '' ''))"

text \<open>
  What holds of the variables of the two loops at every line: the myths saved so far have
  a content above the minimum, and every myth carries the tag of its source.
\<close>

definition schwartzInv :: "schwartz \<Rightarrow> bool" where
  "schwartzInv st \<longleftrightarrow>
     (\<forall>m \<in> set (myths st). 50 < length (content m) \<and> sourceWork m = ''schwartz'') \<and>
     (\<forall>m. currentMyth st = Some m \<longrightarrow> sourceWork m = ''schwartz'')"

definition ginzbergInv :: "nat \<Rightarrow> ginzberg \<Rightarrow> bool" where
  "ginzbergInv v st \<longleftrightarrow>
     (\<forall>m \<in> set (mythsG st). 100 < length (content m) \<and> sourceWork m = ''ginzberg-v'' @ showNat v) \<and>
     (\<forall>m. currentMythG st = Some m \<longrightarrow> sourceWork m = ''ginzberg-v'' @ showNat v)"

text \<open>A table of counts is \<open>counted\<close> when its keys are distinct and its counts positive.\<close>

definition counted :: "(string \<times> nat) list \<Rightarrow> bool" where
  "counted obj \<longleftrightarrow> distinct (map fst obj) \<and> (\<forall>kn \<in> set obj. 0 < snd kn)"

section \<open>Notions used in the statements\<close>








text \<open>
  A page line is a line that is, between its white space, a page number or a Roman page
  number; a quiet line is an empty line or a page line. Two files are alike when they
  differ in quiet lines only.
\<close>

definition isPageLine :: "string \<Rightarrow> bool" where
  "isPageLine l \<longleftrightarrow> isPageNumber (trim l) \<or> isRomanPage (trim l)"

definition quiet :: "string \<Rightarrow> bool" where
  "quiet l \<longleftrightarrow> trim l = [] \<or> isPageLine l"

definition alike :: "string list \<Rightarrow> string list \<Rightarrow> bool" where
  "alike xs ys \<longleftrightarrow> list_all2 (\<lambda>x y. x = y \<or> (quiet x \<and> quiet y)) xs ys"

section \<open>The text normalizer\<close>

lemma isSpace_space [simp]: "isSpace CHR '' ''"
  by (simp add: isSpace_def)

lemma hd_collapse: "collapseSpaces s = x # xs \<Longrightarrow> x = CHR '' '' \<Longrightarrow> s \<noteq> [] \<and> isSpace (hd s)"
  by (cases s) (auto simp: isSpace_def split: if_splits)

lemma collapse_set: "c \<in> set (collapseSpaces s) \<Longrightarrow> isSpace c \<Longrightarrow> c = CHR '' ''"
  by (induction s rule: collapseSpaces.induct) (auto split: if_splits)

lemma collapse_succ: "successively (\<lambda>a b. \<not> (a = CHR '' '' \<and> b = CHR '' '')) (collapseSpaces s)"
proof (induction s rule: collapseSpaces.induct)
  case 1 show ?case by simp
next
  case (2 c cs)
  show ?case
  proof (cases "isSpace c")
    case True
    have "collapseSpaces (dropWhile isSpace cs) = [] \<or> hd (collapseSpaces (dropWhile isSpace cs)) \<noteq> CHR '' ''"
    proof (cases "collapseSpaces (dropWhile isSpace cs)")
      case Nil then show ?thesis by simp
    next
      case (Cons x xs)
      show ?thesis
      proof (rule ccontr)
        assume "\<not> ?thesis"
        with Cons have "x = CHR '' ''" by simp
        from hd_collapse[OF Cons this] have "dropWhile isSpace cs \<noteq> []" "isSpace (hd (dropWhile isSpace cs))" by auto
        with hd_dropWhile[of isSpace cs] show False by blast
      qed
    qed
    with True 2 show ?thesis by (auto simp: successively_Cons)
  next
    case False
    then have "c \<noteq> CHR '' ''" by auto
    with False 2 show ?thesis by (auto simp: successively_Cons)
  qed
qed

lemma collapse_spaced: "spaced (collapseSpaces s)"
  unfolding spaced_def using collapse_set collapse_succ by blast


lemma rmHyph_simps:
  "replaceAll ''- '' [] (c # cs) =
     (if c = CHR ''-'' \<and> cs \<noteq> [] \<and> hd cs = CHR '' '' then replaceAll ''- '' [] (tl cs)
      else c # replaceAll ''- '' [] cs)"
  by (cases cs) auto

lemma spaced_Nil: "spaced []"
  by (simp add: spaced_def)

lemma spaced_Cons:
  "spaced (c # cs) \<longleftrightarrow>
     (isSpace c \<longrightarrow> c = CHR '' '') \<and> (c = CHR '' '' \<longrightarrow> cs = [] \<or> hd cs \<noteq> CHR '' '') \<and> spaced cs"
  unfolding spaced_def successively_Cons by (cases cs) auto

lemma unhyphenated_Nil: "unhyphenated []"
  by (simp add: unhyphenated_def)

lemma unhyphenated_Cons:
  "unhyphenated (c # cs) \<longleftrightarrow>
     (c = CHR ''-'' \<longrightarrow> cs = [] \<or> hd cs \<noteq> CHR '' '') \<and> unhyphenated cs"
  unfolding unhyphenated_def successively_Cons by (cases cs) auto

lemma rmh_Nil: "rmh [] = []" by (simp add: rmh_def)
lemma rmh_one: "rmh [x] = [x]" by (simp add: rmh_def)
lemma rmh_hit: "rmh (CHR ''-'' # CHR '' '' # zs) = rmh zs" by (simp add: rmh_def)
lemma rmh_miss: "\<not> (x = CHR ''-'' \<and> y = CHR '' '') \<Longrightarrow> rmh (x # y # zs) = x # rmh (y # zs)"
  unfolding rmh_def by (subst replaceAll.simps) simp

lemma rmhP_Nil: "rmhP []"
  by (simp add: rmhP_def rmh_Nil spaced_Nil unhyphenated_Nil)

lemma rmhP_one: "spaced [x] \<Longrightarrow> rmhP [x]"
  by (simp add: rmhP_def rmh_one unhyphenated_Cons unhyphenated_Nil)

lemma rmhP_hit:
  assumes "rmhP zs" "zs = [] \<or> hd zs \<noteq> CHR '' ''"
  shows "rmhP (CHR ''-'' # CHR '' '' # zs)"
proof -
  from assms have "rmh zs = [] \<or> hd (rmh zs) \<noteq> CHR '' ''" unfolding rmhP_def by blast
  with assms(1) show ?thesis unfolding rmhP_def rmh_hit by blast
qed

lemma rmhP_miss:
  assumes "rmhP (y # zs)" "\<not> (x = CHR ''-'' \<and> y = CHR '' '')" "isSpace x \<longrightarrow> x = CHR '' ''"
    "x = CHR '' '' \<longrightarrow> y \<noteq> CHR '' ''"
  shows "rmhP (x # y # zs)"
proof -
  have eq: "rmh (x # y # zs) = x # rmh (y # zs)" using assms(2) by (rule rmh_miss)
  from assms(1) have s: "spaced (rmh (y # zs))" and u: "unhyphenated (rmh (y # zs))"
    and h: "rmh (y # zs) = [] \<or> hd (rmh (y # zs)) \<noteq> CHR '' '' \<or> y = CHR '' ''"
    unfolding rmhP_def by simp_all
  have a: "spaced (x # rmh (y # zs))"
    unfolding spaced_Cons[of x] using s h assms(3,4) by blast
  have b: "unhyphenated (x # rmh (y # zs))"
    unfolding unhyphenated_Cons[of x] using u h assms(2) by blast
  show ?thesis unfolding rmhP_def eq using a b by simp
qed

lemma rmh_props: "spaced s \<Longrightarrow> rmhP s"
proof (induction s rule: induct_list012)
  case 1
  show ?case by (rule rmhP_Nil)
next
  case (2 x)
  then show ?case by (rule rmhP_one)
next
  case (3 x y zs)
  have hd_y: "hd (y # zs) = y" by simp
  from 3(3)[unfolded spaced_Cons[of x] hd_y] have sy: "spaced (y # zs)" 
    and x1: "isSpace x \<longrightarrow> x = CHR '' ''" and x2: "x = CHR '' '' \<longrightarrow> y \<noteq> CHR '' ''"
    by blast+
  from sy[unfolded spaced_Cons[of y]] have sz: "spaced zs"
    and y2: "y = CHR '' '' \<longrightarrow> zs = [] \<or> hd zs \<noteq> CHR '' ''"
    by blast+
  show ?case
  proof (cases "x = CHR ''-'' \<and> y = CHR '' ''")
    case True
    with y2 have "zs = [] \<or> hd zs \<noteq> CHR '' ''" by blast
    from rmhP_hit[OF 3(1)[OF sz] this] True show ?thesis by simp
  next
    case False
    from rmhP_miss[OF 3(2)[OF sy] False x1 x2] show ?thesis .
  qed
qed

lemma rmHyph_props:
  "spaced s \<Longrightarrow> spaced (replaceAll ''- '' [] s) \<and> unhyphenated (replaceAll ''- '' [] s)"
  using rmh_props[of s] by (simp add: rmh_def rmhP_def)

lemma rev_dropWhile_rev:
  "xs = rev (dropWhile P (rev xs)) @ rev (takeWhile P (rev xs))"
proof -
  have "rev (rev xs) = rev (takeWhile P (rev xs) @ dropWhile P (rev xs))"
    by (simp only: takeWhile_dropWhile_id)
  then show ?thesis by (simp only: rev_append rev_rev_ident)
qed

lemma trim_decomp: "\<exists>ps ss. s = ps @ trim s @ ss"
proof -
  let ?u = "dropWhile isSpace s"
  have 1: "s = takeWhile isSpace s @ ?u" by simp
  have 2: "?u = trim s @ rev (takeWhile isSpace (rev ?u))"
    unfolding trim_def by (rule rev_dropWhile_rev)
  from 1 2 have "s = takeWhile isSpace s @ trim s @ rev (takeWhile isSpace (rev ?u))" by simp
  then show ?thesis by blast
qed

lemma trim_spaced: "spaced s \<Longrightarrow> spaced (trim s)"
proof -
  assume a: "spaced s"
  obtain ps ss where s: "s = ps @ trim s @ ss" using trim_decomp by blast
  have "set (trim s) \<subseteq> set s" by (auto simp: trim_def dest!: set_dropWhileD)
  moreover have "successively (\<lambda>a b. \<not> (a = CHR '' '' \<and> b = CHR '' '')) (ps @ trim s @ ss)"
    using a s by (simp add: spaced_def)
  ultimately show ?thesis using a by (auto simp: spaced_def successively_append_iff)
qed

lemma trim_unhyphenated: "unhyphenated s \<Longrightarrow> unhyphenated (trim s)"
proof -
  assume a: "unhyphenated s"
  obtain ps ss where s: "s = ps @ trim s @ ss" using trim_decomp by blast
  have "unhyphenated (ps @ trim s @ ss)" using a s by simp
  then show ?thesis by (simp add: unhyphenated_def successively_append_iff)
qed

lemma hd_rev_dropWhile_rev:
  assumes "dropWhile P (rev xs) \<noteq> []"
  shows "hd (rev (dropWhile P (rev xs))) = hd xs"
proof -
  have "hd xs = hd (rev (dropWhile P (rev xs)) @ rev (takeWhile P (rev xs)))"
    by (rule arg_cong[OF rev_dropWhile_rev, of hd])
  also have "\<dots> = hd (rev (dropWhile P (rev xs)))"
    using assms by simp
  finally show ?thesis by simp
qed

lemma trim_hd: "trim s \<noteq> [] \<Longrightarrow> \<not> isSpace (hd (trim s))"
proof -
  assume a: "trim s \<noteq> []"
  let ?u = "dropWhile isSpace s"
  let ?v = "dropWhile isSpace (rev ?u)"
  have t: "trim s = rev ?v" by (simp add: trim_def)
  with a have v: "?v \<noteq> []" by simp
  have u: "?u \<noteq> []"
  proof
    assume "?u = []"
    then have "?v = dropWhile isSpace (rev [])" by (simp only:)
    with v show False by simp
  qed
  have "hd (rev ?v) = hd ?u" using v by (rule hd_rev_dropWhile_rev)
  moreover have "\<not> isSpace (hd ?u)" using u by (rule hd_dropWhile)
  ultimately show ?thesis unfolding t by simp
qed

lemma trim_last: "trim s \<noteq> [] \<Longrightarrow> \<not> isSpace (last (trim s))"
proof -
  assume a: "trim s \<noteq> []"
  let ?v = "dropWhile isSpace (rev (dropWhile isSpace s))"
  have t: "trim s = rev ?v" by (simp add: trim_def)
  with a have v: "?v \<noteq> []" by simp
  then have "\<not> isSpace (hd ?v)" using hd_dropWhile by blast
  then show ?thesis using t v by (simp add: last_rev)
qed

lemma trim_id: "s = [] \<or> (\<not> isSpace (hd s) \<and> \<not> isSpace (last s)) \<Longrightarrow> trim s = s"
proof (cases "s = []")
  case True then show ?thesis by (simp add: trim_def)
next
  case False
  assume "s = [] \<or> (\<not> isSpace (hd s) \<and> \<not> isSpace (last s))"
  with False have h: "\<not> isSpace (hd s)" and l: "\<not> isSpace (last s)" by auto
  have 1: "dropWhile isSpace s = s" using h by (simp add: dropWhile_eq_self_iff)
  have 2: "dropWhile isSpace (rev s) = rev s" using l False by (simp add: dropWhile_eq_self_iff hd_rev)
  show ?thesis by (simp add: trim_def 1 2)
qed

lemma trim_idem: "trim (trim s) = trim s"
proof (cases "trim s = []")
  case True
  then have "trim (trim s) = trim []" by (simp only:)
  also have "\<dots> = []" by (simp add: trim_def)
  finally show ?thesis using True by simp
next
  case False
  then show ?thesis by (intro trim_id disjI2 conjI trim_hd trim_last)
qed

lemma crlf_id: "\<forall>c \<in> set s. isSpace c \<longrightarrow> c = CHR '' '' \<Longrightarrow> replaceAll [cr, nl] [nl] s = s"
  by (induction s) (auto simp: cr_def isSpace_def)

lemma collapse_id: "spaced s \<Longrightarrow> collapseSpaces s = s"
proof (induction s rule: collapseSpaces.induct)
  case 1 show ?case by simp
next
  case (2 c cs)
  from 2(3)[unfolded spaced_Cons[of c]] have sp: "spaced cs"
    and c1: "isSpace c \<longrightarrow> c = CHR '' ''"
    and c2: "c = CHR '' '' \<longrightarrow> cs = [] \<or> hd cs \<noteq> CHR '' ''"
    by blast+
  show ?case
  proof (cases "isSpace c")
    case True
    with c1 have c: "c = CHR '' ''" by blast
    have "cs = [] \<or> \<not> isSpace (hd cs)"
    proof (cases cs)
      case Nil then show ?thesis by simp
    next
      case (Cons d ds)
      from sp[unfolded Cons spaced_Cons[of d]] have "isSpace d \<longrightarrow> d = CHR '' ''" by blast
      moreover from c2 c Cons have "d \<noteq> CHR '' ''" by simp
      ultimately show ?thesis using Cons by auto
    qed
    then have d: "dropWhile isSpace cs = cs" by (simp add: dropWhile_eq_self_iff)
    have "collapseSpaces (dropWhile isSpace cs) = dropWhile isSpace cs"
      using 2(1)[OF True] sp unfolding d by blast
    then have "collapseSpaces cs = cs" unfolding d .
    then show ?thesis using True c d by simp
  next
    case False
    from 2(2)[OF False sp] False show ?thesis by simp
  qed
qed

lemma rmHyph_id: "unhyphenated s \<Longrightarrow> replaceAll ''- '' [] s = s"
proof (induction s)
  case Nil show ?case by simp
next
  case (Cons c cs)
  then have "unhyphenated cs" and "\<not> (c = CHR ''-'' \<and> cs \<noteq> [] \<and> hd cs = CHR '' '')"
    by (auto simp: unhyphenated_def successively_Cons)
  with Cons show ?case by (simp only: rmHyph_simps if_False)
qed

text \<open>
  Claim C10: \<open>cleanText\<close> is idempotent. After the first application the text has single
  spaces as its only white space, no hyphen before a space and no white space at either
  end, so each of the four steps of a second application leaves it as it is.
\<close>

theorem cleanText_idempotent: "cleanText (cleanText t) = cleanText t"
proof -
  let ?a = "replaceAll ''- '' [] (collapseSpaces (replaceAll [cr, nl] [nl] t))"
  have sa: "spaced ?a" and ua: "unhyphenated ?a"
    using rmHyph_props[OF collapse_spaced] by blast+
  have st: "spaced (trim ?a)" and ut: "unhyphenated (trim ?a)"
    using sa ua trim_spaced trim_unhyphenated by blast+
  have 1: "replaceAll [cr, nl] [nl] (trim ?a) = trim ?a"
    using st by (intro crlf_id) (simp add: spaced_def)
  have 2: "collapseSpaces (trim ?a) = trim ?a" using st by (rule collapse_id)
  have 3: "replaceAll ''- '' [] (trim ?a) = trim ?a" using ut by (rule rmHyph_id)
  show ?thesis
    unfolding cleanText_def 1 2 3 by (simp only: trim_idem)
qed

section \<open>The annotators\<close>

lemma setAdd_distinct: "distinct xs \<Longrightarrow> distinct (setAdd xs x)"
  by (simp add: setAdd_def)

lemma setAdd_set: "set (setAdd xs x) = insert x (set xs)"
  by (auto simp: setAdd_def)

lemma setAdd_twice: "setAdd (setAdd xs x) x = setAdd xs x"
  by (simp add: setAdd_def)

lemma foldl_setAdd_distinct: "distinct acc \<Longrightarrow> distinct (foldl setAdd acc xs)"
  by (induction xs arbitrary: acc) (simp_all add: setAdd_distinct)

lemma extractBiblicalReferences_distinct: "distinct (extractBiblicalReferences t)"
  by (simp add: extractBiblicalReferences_def foldl_setAdd_distinct)

lemma themes_fold_distinct:
  "distinct acc \<Longrightarrow>
   distinct (foldl (\<lambda>themes (theme, keywords). if P keywords then setAdd themes theme else themes) acc kws)"
  by (induction kws arbitrary: acc) (auto simp: setAdd_distinct)

lemma themes_fold_subset:
  "set (foldl (\<lambda>themes (theme, keywords). if P keywords then setAdd themes theme else themes) acc kws)
     \<subseteq> set acc \<union> set (map fst kws)"
proof (induction kws arbitrary: acc)
  case Nil show ?case by simp
next
  case (Cons kw kws)
  obtain theme kwds where kw: "kw = (theme, kwds)" by (cases kw)
  show ?case using Cons[of "if P kwds then setAdd acc theme else acc"]
    by (auto simp: kw setAdd_set split: if_splits)
qed

lemma extractThemes_distinct: "distinct (extractThemes t)"
  unfolding extractThemes_def Let_def by (rule themes_fold_distinct) simp

lemma extractThemes_subset: "set (extractThemes t) \<subseteq> set (map fst THEME_KEYWORDS)"
  unfolding extractThemes_def Let_def using themes_fold_subset[of _ "[]"] by simp

lemma themes_postSchwartz:
  "themes (postSchwartz m) = extractThemes (title m @ '' '' @ content m @ '' '' @ commentary m)"
  by (simp add: postSchwartz_def Let_def)

lemma refs_postSchwartz:
  "biblicalReferences (postSchwartz m) =
     extractBiblicalReferences (title m @ '' '' @ content m @ '' '' @ commentary m)"
  by (simp add: postSchwartz_def Let_def)

lemma content_postSchwartz: "content (postSchwartz m) = cleanText (content m)"
  by (simp add: postSchwartz_def Let_def)

lemma themes_postGinzberg: "themes (postGinzberg m) = extractThemes (content m)"
  by (simp add: postGinzberg_def)

lemma refs_postGinzberg: "biblicalReferences (postGinzberg m) = extractBiblicalReferences (content m)"
  by (simp add: postGinzberg_def)

lemma content_postGinzberg: "content (postGinzberg m) = cleanText (content m)"
  by (simp add: postGinzberg_def)

lemma schwartz_records:
  "r \<in> set (snd (parseSchwartzFile text)) \<Longrightarrow>
     \<exists>m \<in> set (schwartzDrafts (map trim (splitOn nl text))). r = postSchwartz m"
  by (auto simp: parseSchwartzFile_def parseSchwartzLines_def split: if_splits)

lemma ginzberg_records:
  "r \<in> set (snd (parseGinzbergFile text v)) \<Longrightarrow>
     \<exists>m \<in> set (ginzbergDrafts (map trim (splitOn nl text)) v). r = postGinzberg m"
  by (auto simp: parseGinzbergFile_def parseGinzbergLines_def)

lemma length_THEME_KEYWORDS: "length THEME_KEYWORDS = 18"
  by (simp add: THEME_KEYWORDS_def)

lemma schwartz_record_annotations:
  assumes "r \<in> set (snd (parseSchwartzFile a))"
  shows "distinct (themes r) \<and> distinct (biblicalReferences r) \<and>
      set (themes r) \<subseteq> set (map fst THEME_KEYWORDS)"
proof -
  from schwartz_records[OF assms] obtain m where r: "r = postSchwartz m" by blast
  show ?thesis unfolding r themes_postSchwartz refs_postSchwartz
    by (intro conjI extractThemes_distinct extractBiblicalReferences_distinct extractThemes_subset)
qed

lemma ginzberg_record_annotations:
  assumes "r \<in> set (snd (parseGinzbergFile b v))"
  shows "distinct (themes r) \<and> distinct (biblicalReferences r) \<and>
      set (themes r) \<subseteq> set (map fst THEME_KEYWORDS)"
proof -
  from ginzberg_records[OF assms] obtain m where r: "r = postGinzberg m" by blast
  show ?thesis unfolding r themes_postGinzberg refs_postGinzberg
    by (intro conjI extractThemes_distinct extractBiblicalReferences_distinct extractThemes_subset)
qed

section \<open>Evaluating the segmenters on a file\<close>

lemma splitOn_not_Nil: "splitOn d s \<noteq> []"
  by (induction s) (auto split: list.splits)

lemma splitOn_plain: "d \<notin> set x \<Longrightarrow> splitOn d x = [x]"
  by (induction x) auto

lemma splitOn_append: "d \<notin> set x \<Longrightarrow> splitOn d (x @ d # s) = x # splitOn d s"
  by (induction x) (auto split: list.splits)

lemma splitOn_joinWith:
  "ls \<noteq> [] \<Longrightarrow> \<forall>l \<in> set ls. d \<notin> set l \<Longrightarrow> splitOn d (joinWith [d] ls) = ls"
  by (induction "[d]" ls rule: joinWith.induct) (simp_all add: splitOn_plain splitOn_append)

lemma trim_Nil: "trim [] = []"
  by (simp add: trim_def)

lemma parseSchwartzFile_joinWith:
  "ls \<noteq> [] \<Longrightarrow> \<forall>l \<in> set ls. nl \<notin> set l \<Longrightarrow>
   parseSchwartzFile (joinWith [nl] ls) = parseSchwartzLines (map trim ls)"
  by (simp add: parseSchwartzFile_def splitOn_joinWith)

lemma parseGinzbergFile_joinWith:
  "ls \<noteq> [] \<Longrightarrow> \<forall>l \<in> set ls. nl \<notin> set l \<Longrightarrow>
   parseGinzbergFile (joinWith [nl] ls) v = parseGinzbergLines (map trim ls) v"
  by (simp add: parseGinzbergFile_def splitOn_joinWith)

lemma schwartzStart_padded:
  "trim l = ''BOOK ONE'' \<Longrightarrow> schwartzStart (replicate 6000 [] @ l # rest) = 6000"
  by (simp add: schwartzStart_def)

lemma parseSchwartzLines_padded:
  assumes "trim l = ''BOOK ONE''"
  shows "snd (parseSchwartzLines (replicate 6000 [] @ l # rest)) =
     map postSchwartz (saveMyth (schwartzLoop schwartzInit (l # rest)))"
  by (simp add: parseSchwartzLines_def schwartzStart_padded[OF assms] schwartzDrafts_def)

lemma ginzbergStart_padded:
  "findChapterOne body 400 = Some 400 \<Longrightarrow> ginzbergStart (replicate 400 [] @ body) = 400"
  by (simp add: ginzbergStart_def)

lemma parseGinzbergLines_padded:
  assumes "findChapterOne body 400 = Some 400"
  shows "snd (parseGinzbergLines (replicate 400 [] @ body) v) =
     map postGinzberg (saveMythG (ginzbergLoop v ginzbergInit body))"
  by (simp add: parseGinzbergLines_def ginzbergStart_padded[OF assms] ginzbergDrafts_def)

lemma map_content_postSchwartz: "map content (map postSchwartz ms) = map cleanText (map content ms)"
  by (simp add: postSchwartz_def Let_def)

lemma map_content_postGinzberg: "map content (map postGinzberg ms) = map cleanText (map content ms)"
  by (simp add: postGinzberg_def)

lemma schwartz_padded_file:
  assumes "\<forall>l \<in> set (b # body). nl \<notin> set l" and "trim b = ''BOOK ONE''"
  shows "snd (parseSchwartzFile (joinWith [nl] (replicate 6000 [] @ b # body))) =
     map postSchwartz (saveMyth (schwartzLoop schwartzInit (map trim (b # body))))"
proof -
  have ne: "replicate 6000 [] @ b # body \<noteq> []" by simp
  have nl: "\<forall>l \<in> set (replicate 6000 [] @ b # body). nl \<notin> set l" using assms(1) by auto
  have tr: "map trim (replicate 6000 [] @ b # body) = replicate 6000 [] @ trim b # map trim body"
    by (simp add: trim_Nil)
  have tb: "trim (trim b) = ''BOOK ONE''" unfolding trim_idem by (rule assms(2))
  show ?thesis
    unfolding parseSchwartzFile_joinWith[OF ne nl] tr parseSchwartzLines_padded[OF tb] by simp
qed

lemma ginzberg_padded_file:
  assumes "\<forall>l \<in> set body. nl \<notin> set l" and "findChapterOne (map trim body) 400 = Some 400"
  shows "snd (parseGinzbergFile (joinWith [nl] (replicate 400 [] @ body)) v) =
     map postGinzberg (saveMythG (ginzbergLoop v ginzbergInit (map trim body)))"
proof -
  have ne: "replicate 400 [] @ body \<noteq> []" by simp
  have nl: "\<forall>l \<in> set (replicate 400 [] @ body). nl \<notin> set l" using assms(1) by auto
  have tr: "map trim (replicate 400 [] @ body) = replicate 400 [] @ map trim body"
    by (simp add: trim_Nil)
  show ?thesis
    unfolding parseGinzbergFile_joinWith[OF ne nl] tr parseGinzbergLines_padded[OF assms(2)] ..
qed

lemma ginzberg_short_file:
  assumes "ls \<noteq> []" and "\<forall>l \<in> set ls. nl \<notin> set l" and "length ls \<le> 400"
  shows "parseGinzbergFile (joinWith [nl] ls) v =
     ([''  Content starts at line 0''],
      map postGinzberg (saveMythG (ginzbergLoop v ginzbergInit (map trim ls))))"
  unfolding parseGinzbergFile_joinWith[OF assms(1,2)]
  using assms(3)
  by (simp add: parseGinzbergLines_def ginzbergStart_def ginzbergDrafts_def showNat.simps[of 0])

section \<open>The minimum length of a saved content\<close>

lemma saveMyth_inv: "schwartzInv st \<Longrightarrow>
   \<forall>m \<in> set (saveMyth st). 50 < length (content m) \<and> sourceWork m = ''schwartz''"
  by (auto simp: schwartzInv_def saveMyth_def Let_def split: option.splits if_splits)

lemma schwartzStep_myths:
  "myths (fst (schwartzStep st l rest)) = myths st \<or>
   myths (fst (schwartzStep st l rest)) = saveMyth st"
  by (simp add: schwartzStep_def Let_def split: option.splits prod.splits)

lemma schwartzStep_currentMyth:
  "currentMyth (fst (schwartzStep st l rest)) = Some m \<Longrightarrow>
   sourceWork m = ''schwartz'' \<or> (\<exists>m'. currentMyth st = Some m' \<and> sourceWork m = sourceWork m')"
  by (auto simp: schwartzStep_def newMyth_def Let_def split: option.splits prod.splits if_splits)

lemma schwartzStep_inv: "schwartzInv st \<Longrightarrow> schwartzInv (fst (schwartzStep st l rest))"
proof -
  assume inv: "schwartzInv st"
  have 1: "\<forall>m \<in> set (myths (fst (schwartzStep st l rest))).
      50 < length (content m) \<and> sourceWork m = ''schwartz''"
    using schwartzStep_myths[of st l rest] saveMyth_inv[OF inv] inv
    unfolding schwartzInv_def by metis
  have 2: "\<forall>m. currentMyth (fst (schwartzStep st l rest)) = Some m \<longrightarrow> sourceWork m = ''schwartz''"
    using schwartzStep_currentMyth[of st l rest] inv unfolding schwartzInv_def by metis
  show ?thesis unfolding schwartzInv_def using 1 2 by blast
qed

lemma schwartzLoop_inv: "schwartzInv st \<Longrightarrow> schwartzInv (schwartzLoop st ls)"
  by (induction st ls rule: schwartzLoop.induct) (simp_all add: schwartzStep_inv)

lemma schwartzInit_inv: "schwartzInv schwartzInit"
  by (simp add: schwartzInv_def schwartzInit_def)

lemma schwartzDrafts_min:
  "m \<in> set (schwartzDrafts ls) \<Longrightarrow> 50 < length (content m) \<and> sourceWork m = ''schwartz''"
  unfolding schwartzDrafts_def
  using saveMyth_inv[OF schwartzLoop_inv[OF schwartzInit_inv]] by blast

lemma saveMythG_inv: "ginzbergInv v st \<Longrightarrow>
   \<forall>m \<in> set (saveMythG st). 100 < length (content m) \<and> sourceWork m = ''ginzberg-v'' @ showNat v"
  by (auto simp: ginzbergInv_def saveMythG_def split: option.splits if_splits)

lemma ginzbergStep_myths:
  "mythsG (fst (ginzbergStep v st l rest)) = mythsG st \<or>
   mythsG (fst (ginzbergStep v st l rest)) = saveMythG st"
  by (simp add: ginzbergStep_def Let_def split: option.splits prod.splits)

lemma ginzbergStep_currentMyth:
  "currentMythG (fst (ginzbergStep v st l rest)) = Some m \<Longrightarrow>
   sourceWork m = ''ginzberg-v'' @ showNat v \<or> currentMythG st = Some m"
  by (auto simp: ginzbergStep_def Let_def split: option.splits prod.splits if_splits)

lemma ginzbergStep_inv: "ginzbergInv v st \<Longrightarrow> ginzbergInv v (fst (ginzbergStep v st l rest))"
proof -
  assume inv: "ginzbergInv v st"
  have 1: "\<forall>m \<in> set (mythsG (fst (ginzbergStep v st l rest))).
      100 < length (content m) \<and> sourceWork m = ''ginzberg-v'' @ showNat v"
    using ginzbergStep_myths[of v st l rest] saveMythG_inv[OF inv] inv
    unfolding ginzbergInv_def by metis
  have 2: "\<forall>m. currentMythG (fst (ginzbergStep v st l rest)) = Some m \<longrightarrow>
      sourceWork m = ''ginzberg-v'' @ showNat v"
    using ginzbergStep_currentMyth[of v st l rest] inv unfolding ginzbergInv_def by metis
  show ?thesis unfolding ginzbergInv_def using 1 2 by blast
qed

lemma ginzbergLoop_inv: "ginzbergInv v st \<Longrightarrow> ginzbergInv v (ginzbergLoop v st ls)"
  by (induction v st ls rule: ginzbergLoop.induct) (simp_all add: ginzbergStep_inv)

lemma ginzbergInit_inv: "ginzbergInv v ginzbergInit"
  by (simp add: ginzbergInv_def ginzbergInit_def)

lemma ginzbergDrafts_min:
  "m \<in> set (ginzbergDrafts ls v) \<Longrightarrow>
     100 < length (content m) \<and> sourceWork m = ''ginzberg-v'' @ showNat v"
  unfolding ginzbergDrafts_def
  using saveMythG_inv[OF ginzbergLoop_inv[OF ginzbergInit_inv]] by blast

lemma sourceWork_postSchwartz: "sourceWork (postSchwartz m) = sourceWork m"
  by (simp add: postSchwartz_def Let_def)

lemma sourceWork_postGinzberg: "sourceWork (postGinzberg m) = sourceWork m"
  by (simp add: postGinzberg_def)

section \<open>Examples\<close>

lemma map_title_postSchwartz: "map title (map postSchwartz ms) = map title ms"
  by (simp add: postSchwartz_def Let_def)



lemma map_title_postGinzberg: "map title (map postGinzberg ms) = map title ms"
  by (simp add: postGinzberg_def)

lemma map_book_postGinzberg: "map book (map postGinzberg ms) = map book ms"
  by (simp add: postGinzberg_def)

lemma nonempty_if_map: "map f xs = [y] \<Longrightarrow> xs \<noteq> [] \<and> hd xs \<in> set xs"
  by (cases xs) auto

lemma schwartz_example:
  "map content (snd (parseSchwartzFile (joinWith [nl]
     (replicate 6000 [] @ [''BOOK ONE'', ''1. TITLE'', replicate 51 CHR ''a''])))) =
   [replicate 51 CHR ''a'']"
proof -
  let ?body = "[''1. TITLE'', replicate 51 CHR ''a'']"
  have nl: "\<forall>l \<in> set (''BOOK ONE'' # ?body). nl \<notin> set l"
    by (simp add: nl_def)
  have b1: "trim ''BOOK ONE'' = ''BOOK ONE''" by code_simp
  have dr: "map content (saveMyth (schwartzLoop schwartzInit (map trim (''BOOK ONE'' # ?body)))) =
      [replicate 51 CHR ''a'']"
    by code_simp
  have cl: "map cleanText [replicate 51 CHR ''a''] = [replicate 51 CHR ''a'']"
    by code_simp
  show ?thesis
    unfolding schwartz_padded_file[OF nl b1] map_content_postSchwartz dr cl ..
qed

lemma ginzberg_example:
  "map content (snd (parseGinzbergFile (joinWith [nl]
     (replicate 400 [] @ [''I'', ''THE CREATION OF THE WORLD'', ''THE FIRST THINGS CREATED'',
        replicate 101 CHR ''a''])) 1)) =
   [replicate 101 CHR ''a'']"
proof -
  let ?body = "[''I'', ''THE CREATION OF THE WORLD'', ''THE FIRST THINGS CREATED'',
        replicate 101 CHR ''a'']"
  have nl: "\<forall>l \<in> set ?body. nl \<notin> set l"
    by (simp add: nl_def)
  have st: "findChapterOne (map trim ?body) 400 = Some 400" by code_simp
  have dr: "map content (saveMythG (ginzbergLoop 1 ginzbergInit (map trim ?body))) =
      [replicate 101 CHR ''a'']"
    by code_simp
  have cl: "map cleanText [replicate 101 CHR ''a''] = [replicate 101 CHR ''a'']"
    by code_simp
  show ?thesis
    unfolding ginzberg_padded_file[OF nl st] map_content_postGinzberg dr cl ..
qed

section \<open>The corpus aggregator\<close>

lemma increment_keys:
  "map fst (increment obj k) = (if k \<in> set (map fst obj) then map fst obj else map fst obj @ [k])"
  by (induction obj k rule: increment.induct) auto

lemma increment_key_set: "fst ` set (increment obj k) = insert k (fst ` set obj)"
  using arg_cong[OF increment_keys[of obj k], of set] by (auto split: if_splits)

lemma increment_values: "kn \<in> set (increment obj k) \<Longrightarrow> kn \<in> set obj \<or> 0 < snd kn"
  by (induction obj k rule: increment.induct) (auto split: if_splits)

lemma increment_counted: "counted obj \<Longrightarrow> counted (increment obj k)"
  unfolding counted_def using increment_values[of _ obj k] by (auto simp: increment_keys)

lemma foldl_increment_counted: "counted obj \<Longrightarrow> counted (foldl increment obj ks)"
  by (induction ks arbitrary: obj) (simp_all add: increment_counted)

lemma foldl_increment_keys:
  "fst ` set (foldl increment obj ks) = fst ` set obj \<union> set ks"
  by (induction ks arbitrary: obj) (simp_all add: increment_key_set)

lemma counted_keys: "counted obj \<Longrightarrow> (0 < countOf obj k) = (k \<in> set (map fst obj))"
proof (induction obj)
  case Nil then show ?case by (simp add: countOf_def)
next
  case (Cons kn obj)
  obtain k' n where kn: "kn = (k', n)" by (cases kn)
  from Cons.prems have c: "counted obj" and n: "0 < n" by (auto simp: counted_def kn)
  show ?case using Cons.IH[OF c] n by (auto simp: countOf_def kn)
qed

lemma countThemes_counted: "counted (foldl (\<lambda>obj m. foldl increment obj (themes m)) obj ms)"
  if "counted obj" for obj :: "(string \<times> nat) list"
  using that by (induction ms arbitrary: obj) (simp_all add: foldl_increment_counted)

lemma countThemes_keys:
  "fst ` set (foldl (\<lambda>obj m. foldl increment obj (themes m)) obj ms) =
     fst ` set obj \<union> (\<Union>m \<in> set ms. set (themes m))"
  by (induction ms arbitrary: obj) (simp_all add: foldl_increment_keys Un_assoc)

lemma countBooks_counted:
  "counted obj \<Longrightarrow>
   counted (foldl (\<lambda>obj m. if book m \<noteq> [] then increment obj (book m) else obj) obj ms)"
  by (induction ms arbitrary: obj) (simp_all add: increment_counted)

lemma countBooks_keys:
  "fst ` set (foldl (\<lambda>obj m. if book m \<noteq> [] then increment obj (book m) else obj) obj ms) =
     fst ` set obj \<union> {b. b \<noteq> [] \<and> b \<in> book ` set ms}"
  by (induction ms arbitrary: obj) (auto simp: increment_key_set)

lemma counted_Nil: "counted []"
  by (simp add: counted_def)

lemma theme_options:
  assumes "counted tc"
  shows "set (sort_key (\<lambda>t. - int (countOf tc t)) (map fst tc)) = {t. 0 < countOf tc t}"
    and "distinct (sort_key (\<lambda>t. - int (countOf tc t)) (map fst tc))"
    and "sorted_wrt (\<lambda>x y. countOf tc y \<le> countOf tc x)
           (sort_key (\<lambda>t. - int (countOf tc t)) (map fst tc))"
proof -
  show "set (sort_key (\<lambda>t. - int (countOf tc t)) (map fst tc)) = {t. 0 < countOf tc t}"
    using counted_keys[OF assms] by auto
  show "distinct (sort_key (\<lambda>t. - int (countOf tc t)) (map fst tc))"
    using assms by (simp add: counted_def)
  have "sorted (map (\<lambda>t. - int (countOf tc t)) (sort_key (\<lambda>t. - int (countOf tc t)) (map fst tc)))"
    by (rule sorted_sort_key)
  then show "sorted_wrt (\<lambda>x y. countOf tc y \<le> countOf tc x)
           (sort_key (\<lambda>t. - int (countOf tc t)) (map fst tc))"
    by (simp add: sorted_map)
qed

lemma book_options:
  assumes "counted bc"
  shows "set (sort (map fst bc)) = {b. 0 < countOf bc b}"
    and "distinct (sort (map fst bc))" and "sorted (sort (map fst bc))"
proof -
  show "set (sort (map fst bc)) = {b. 0 < countOf bc b}"
    using counted_keys[OF assms] by auto
  show "distinct (sort (map fst bc))" using assms by (simp add: counted_def)
  show "sorted (sort (map fst bc))" by (rule sorted_sort)
qed

lemma assemble_filterOptions:
  "(let db = assemble now sm g1 g2; st = dbStats db; fo = dbFilterOptions db
    in set (themeOptions fo) = {t. 0 < countOf (themeCounts st) t} \<and>
       distinct (themeOptions fo) \<and>
       sorted_wrt (\<lambda>x y. countOf (themeCounts st) y \<le> countOf (themeCounts st) x) (themeOptions fo) \<and>
       {t. 0 < countOf (themeCounts st) t} = (\<Union>m \<in> set (allMyths db). set (themes m)) \<and>
       set (bookOptions fo) = {b. 0 < countOf (bookCounts st) b} \<and>
       distinct (bookOptions fo) \<and> sorted (bookOptions fo) \<and>
       {b. 0 < countOf (bookCounts st) b} = {b. b \<noteq> [] \<and> b \<in> book ` set (allMyths db)})"
proof -
  let ?ms = "sm @ g1 @ g2"
  have ct: "counted (countThemes ?ms)"
    unfolding countThemes_def by (rule countThemes_counted[OF counted_Nil])
  have cb: "counted (countBooks ?ms)"
    unfolding countBooks_def by (rule countBooks_counted[OF counted_Nil])
  have kt: "{t. 0 < countOf (countThemes ?ms) t} = (\<Union>m \<in> set ?ms. set (themes m))"
    using counted_keys[OF ct] countThemes_keys[of "[]" ?ms] unfolding countThemes_def by auto
  have kb: "{b. 0 < countOf (countBooks ?ms) b} = {b. b \<noteq> [] \<and> b \<in> book ` set ?ms}"
    using counted_keys[OF cb] countBooks_keys[of "[]" ?ms] unfolding countBooks_def by auto
  show ?thesis
    unfolding assemble_def Let_def buildFilterOptions_def
    using theme_options[OF ct] book_options[OF cb] kt kb by simp
qed

section \<open>The steps of the Source-A segmenter\<close>


















section \<open>The lines read by the segmenter of the first source\<close>











section \<open>The claims on the records of the output\<close>

text \<open>
  Claim C1, as the code has it. Each segmenter compares the length of the content of a
  draft, the buffered lines joined by single spaces, with its minimum (50 for the source
  tagged \<open>schwartz\<close>, 100 for a source tagged \<open>ginzberg-v\<close>\<open>n\<close>) at the moment the myth is
  saved. Every record of the output comes from a draft above the minimum, and its content
  is \<open>cleanText\<close> of the content of that draft.
\<close>

theorem draft_content_above_minimum:
  "(\<forall>r \<in> set (snd (parseSchwartzFile a)).
      sourceWork r = ''schwartz'' \<and>
      (\<exists>m \<in> set (schwartzDrafts (map trim (splitOn nl a))).
         r = postSchwartz m \<and> content r = cleanText (content m) \<and> 50 < length (content m))) \<and>
   (\<forall>r \<in> set (snd (parseGinzbergFile b v)).
      sourceWork r = ''ginzberg-v'' @ showNat v \<and>
      (\<exists>m \<in> set (ginzbergDrafts (map trim (splitOn nl b)) v).
         r = postGinzberg m \<and> content r = cleanText (content m) \<and> 100 < length (content m)))"
proof (intro conjI ballI)
  fix r assume "r \<in> set (snd (parseSchwartzFile a))"
  from schwartz_records[OF this] obtain m
    where m: "m \<in> set (schwartzDrafts (map trim (splitOn nl a)))" and r: "r = postSchwartz m"
    by blast
  from schwartzDrafts_min[OF m] show "sourceWork r = ''schwartz''"
    by (simp add: r sourceWork_postSchwartz)
  from schwartzDrafts_min[OF m] m
  show "\<exists>m \<in> set (schwartzDrafts (map trim (splitOn nl a))).
         r = postSchwartz m \<and> content r = cleanText (content m) \<and> 50 < length (content m)"
    unfolding r using content_postSchwartz by blast
next
  fix r assume "r \<in> set (snd (parseGinzbergFile b v))"
  from ginzberg_records[OF this] obtain m
    where m: "m \<in> set (ginzbergDrafts (map trim (splitOn nl b)) v)" and r: "r = postGinzberg m"
    by blast
  from ginzbergDrafts_min[OF m] show "sourceWork r = ''ginzberg-v'' @ showNat v"
    by (simp add: r sourceWork_postGinzberg)
  from ginzbergDrafts_min[OF m] m
  show "\<exists>m \<in> set (ginzbergDrafts (map trim (splitOn nl b)) v).
         r = postGinzberg m \<and> content r = cleanText (content m) \<and> 100 < length (content m)"
    unfolding r using content_postGinzberg by blast
qed

text \<open>
  The theorem applied to a file of each source: 6000 empty lines, the header of the first
  book, a title and a line of 51 letters; 400 empty lines, the first chapter, a section
  title and a line of 101 letters.
\<close>

theorem draft_content_above_minimum_witness:
  "snd (parseSchwartzFile (joinWith [nl] (replicate 6000 [] @ [''BOOK ONE'', ''1. TITLE'', replicate 51 CHR ''a'']))) \<noteq> [] \<and>
   sourceWork (hd (snd (parseSchwartzFile (joinWith [nl] (replicate 6000 [] @ [''BOOK ONE'', ''1. TITLE'', replicate 51 CHR ''a'']))))) = ''schwartz'' \<and>
   (\<exists>d. content (hd (snd (parseSchwartzFile (joinWith [nl] (replicate 6000 [] @ [''BOOK ONE'', ''1. TITLE'', replicate 51 CHR ''a'']))))) = cleanText d \<and> 50 < length d) \<and>
   snd (parseGinzbergFile (joinWith [nl] (replicate 400 [] @ [''I'', ''THE CREATION OF THE WORLD'', ''THE FIRST THINGS CREATED'', replicate 101 CHR ''a''])) 1) \<noteq> [] \<and>
   sourceWork (hd (snd (parseGinzbergFile (joinWith [nl] (replicate 400 [] @ [''I'', ''THE CREATION OF THE WORLD'', ''THE FIRST THINGS CREATED'', replicate 101 CHR ''a''])) 1))) = ''ginzberg-v'' @ showNat 1 \<and>
   (\<exists>d. content (hd (snd (parseGinzbergFile (joinWith [nl] (replicate 400 [] @ [''I'', ''THE CREATION OF THE WORLD'', ''THE FIRST THINGS CREATED'', replicate 101 CHR ''a''])) 1))) = cleanText d \<and> 100 < length d)"
proof -
  let ?a = "joinWith [nl] (replicate 6000 [] @ [''BOOK ONE'', ''1. TITLE'', replicate 51 CHR ''a''])"
  let ?b = "joinWith [nl] (replicate 400 [] @ [''I'', ''THE CREATION OF THE WORLD'', ''THE FIRST THINGS CREATED'', replicate 101 CHR ''a''])"
  from nonempty_if_map[OF schwartz_example]
  have a: "snd (parseSchwartzFile ?a) \<noteq> []"
    and ha: "hd (snd (parseSchwartzFile ?a)) \<in> set (snd (parseSchwartzFile ?a))" by blast+
  from nonempty_if_map[OF ginzberg_example]
  have b: "snd (parseGinzbergFile ?b 1) \<noteq> []"
    and hb: "hd (snd (parseGinzbergFile ?b 1)) \<in> set (snd (parseGinzbergFile ?b 1))" by blast+
  from draft_content_above_minimum[of ?a ?b 1] ha
  have 1: "sourceWork (hd (snd (parseSchwartzFile ?a))) = ''schwartz''"
    and 2: "\<exists>d. content (hd (snd (parseSchwartzFile ?a))) = cleanText d \<and> 50 < length d"
    by blast+
  from draft_content_above_minimum[of ?a ?b 1] hb
  have 3: "sourceWork (hd (snd (parseGinzbergFile ?b 1))) = ''ginzberg-v'' @ showNat 1"
    and 4: "\<exists>d. content (hd (snd (parseGinzbergFile ?b 1))) = cleanText d \<and> 100 < length d"
    by blast+
  from a 1 2 b 3 4 show ?thesis by blast
qed

text \<open>
  Claim C1 as stated fails: the content of a record is cleaned after the test. A line
  of 62 characters, \<open>a\<close>, 60 spaces and \<open>b\<close>, is saved as a draft and leaves a content of
  three characters.
\<close>

theorem cleaned_content_below_minimum:
  "map content (snd (parseSchwartzFile (joinWith [nl]
     (replicate 6000 [] @ [''BOOK ONE'', ''1. TITLE'', ''a'' @ replicate 60 CHR '' '' @ ''b''])))) = [''a b'']"
proof -
  let ?body = "[''1. TITLE'', ''a'' @ replicate 60 CHR '' '' @ ''b'']"
  have nl: "\<forall>l \<in> set (''BOOK ONE'' # ?body). nl \<notin> set l"
    by (simp add: nl_def)
  have b1: "trim ''BOOK ONE'' = ''BOOK ONE''" by code_simp
  have dr: "map content (saveMyth (schwartzLoop schwartzInit (map trim (''BOOK ONE'' # ?body)))) =
      [''a'' @ replicate 60 CHR '' '' @ ''b'']"
    by code_simp
  have cl: "map cleanText [''a'' @ replicate 60 CHR '' '' @ ''b''] = [''a b'']"
    by code_simp
  show ?thesis
    unfolding schwartz_padded_file[OF nl b1] map_content_postSchwartz dr cl ..
qed

text \<open>
  Claim C9: in every record of the output the lists \<open>themes\<close> and \<open>biblicalReferences\<close> have
  no duplicates, and every theme is one of the 18 identifiers of \<open>THEME_KEYWORDS\<close>; the same
  holds of the two annotators on every text, and adding to a set an element that it has
  changes nothing.
\<close>

theorem annotations_deduplicated:
  "(\<forall>r \<in> set (snd (parseSchwartzFile a)) \<union> set (snd (parseGinzbergFile b v)).
      distinct (themes r) \<and> distinct (biblicalReferences r) \<and>
      set (themes r) \<subseteq> set (map fst THEME_KEYWORDS)) \<and>
   distinct (extractThemes t) \<and> distinct (extractBiblicalReferences t) \<and>
   set (extractThemes t) \<subseteq> set (map fst THEME_KEYWORDS) \<and>
   setAdd (setAdd xs x) x = setAdd xs x \<and> length THEME_KEYWORDS = 18"
proof (intro conjI ballI)
  fix r assume "r \<in> set (snd (parseSchwartzFile a)) \<union> set (snd (parseGinzbergFile b v))"
  then have r: "r \<in> set (snd (parseSchwartzFile a)) \<or> r \<in> set (snd (parseGinzbergFile b v))"
    by simp
  from r show "distinct (themes r)"
    using schwartz_record_annotations ginzberg_record_annotations by blast
  from r show "distinct (biblicalReferences r)"
    using schwartz_record_annotations ginzberg_record_annotations by blast
  from r show "set (themes r) \<subseteq> set (map fst THEME_KEYWORDS)"
    using schwartz_record_annotations ginzberg_record_annotations by blast
qed (rule extractThemes_distinct extractBiblicalReferences_distinct extractThemes_subset
      setAdd_twice length_THEME_KEYWORDS)+

theorem annotations_deduplicated_witness:
  "snd (parseSchwartzFile (joinWith [nl] (replicate 6000 [] @ [''BOOK ONE'', ''1. TITLE'', replicate 51 CHR ''a'']))) \<noteq> [] \<and>
   distinct (themes (hd (snd (parseSchwartzFile (joinWith [nl] (replicate 6000 [] @ [''BOOK ONE'', ''1. TITLE'', replicate 51 CHR ''a''])))))) \<and>
   distinct (biblicalReferences (hd (snd (parseSchwartzFile (joinWith [nl] (replicate 6000 [] @ [''BOOK ONE'', ''1. TITLE'', replicate 51 CHR ''a''])))))) \<and>
   set (themes (hd (snd (parseSchwartzFile (joinWith [nl] (replicate 6000 [] @ [''BOOK ONE'', ''1. TITLE'', replicate 51 CHR ''a''])))))) \<subseteq> set (map fst THEME_KEYWORDS) \<and>
   snd (parseGinzbergFile (joinWith [nl] (replicate 400 [] @ [''I'', ''THE CREATION OF THE WORLD'', ''THE FIRST THINGS CREATED'', replicate 101 CHR ''a''])) 1) \<noteq> [] \<and>
   distinct (themes (hd (snd (parseGinzbergFile (joinWith [nl] (replicate 400 [] @ [''I'', ''THE CREATION OF THE WORLD'', ''THE FIRST THINGS CREATED'', replicate 101 CHR ''a''])) 1)))) \<and>
   distinct (biblicalReferences (hd (snd (parseGinzbergFile (joinWith [nl] (replicate 400 [] @ [''I'', ''THE CREATION OF THE WORLD'', ''THE FIRST THINGS CREATED'', replicate 101 CHR ''a''])) 1)))) \<and>
   set (themes (hd (snd (parseGinzbergFile (joinWith [nl] (replicate 400 [] @ [''I'', ''THE CREATION OF THE WORLD'', ''THE FIRST THINGS CREATED'', replicate 101 CHR ''a''])) 1)))) \<subseteq> set (map fst THEME_KEYWORDS)"
proof -
  let ?a = "joinWith [nl] (replicate 6000 [] @ [''BOOK ONE'', ''1. TITLE'', replicate 51 CHR ''a''])"
  let ?b = "joinWith [nl] (replicate 400 [] @ [''I'', ''THE CREATION OF THE WORLD'', ''THE FIRST THINGS CREATED'', replicate 101 CHR ''a''])"
  from nonempty_if_map[OF schwartz_example]
  have a: "snd (parseSchwartzFile ?a) \<noteq> []"
    and ha: "hd (snd (parseSchwartzFile ?a)) \<in> set (snd (parseSchwartzFile ?a))" by blast+
  from nonempty_if_map[OF ginzberg_example]
  have b: "snd (parseGinzbergFile ?b 1) \<noteq> []"
    and hb: "hd (snd (parseGinzbergFile ?b 1)) \<in> set (snd (parseGinzbergFile ?b 1))" by blast+
  have all: "\<forall>r \<in> set (snd (parseSchwartzFile ?a)) \<union> set (snd (parseGinzbergFile ?b 1)).
      distinct (themes r) \<and> distinct (biblicalReferences r) \<and>
      set (themes r) \<subseteq> set (map fst THEME_KEYWORDS)"
    using annotations_deduplicated[of ?a ?b 1] by (rule conjunct1)
  from all ha have 1: "distinct (themes (hd (snd (parseSchwartzFile ?a)))) \<and>
      distinct (biblicalReferences (hd (snd (parseSchwartzFile ?a)))) \<and>
      set (themes (hd (snd (parseSchwartzFile ?a)))) \<subseteq> set (map fst THEME_KEYWORDS)"
    by blast
  from all hb have 2: "distinct (themes (hd (snd (parseGinzbergFile ?b 1)))) \<and>
      distinct (biblicalReferences (hd (snd (parseGinzbergFile ?b 1)))) \<and>
      set (themes (hd (snd (parseGinzbergFile ?b 1)))) \<subseteq> set (map fst THEME_KEYWORDS)"
    by blast
  from a 1 b 2 show ?thesis by blast
qed

text \<open>
  Claim C3 fails on the code at a citation with an abbreviated book. The pattern
  \<open>/\\./g\<close> with which the source means to strip the period of the abbreviation matches
  a backslash and the character after it, never the period of \<open>Gen.\<close>: where the claim
  has the citation \<open>Gen 1:1\<close>, the source returns \<open>Gen. 1:1\<close>.
\<close>

theorem period_not_stripped: "extractBiblicalReferences ''Gen. 1:1'' = [''Gen. 1:1'']"
  by code_simp

text \<open>
  Claim C5 fails on the second source. \<open>parseSchwartzFile\<close> returns no records and logs a
  warning when it has not found its start marker; \<open>parseGinzbergFile\<close> has no such test:
  with \<open>contentStart\<close> left at 0 it segments the file from its first line. The file here
  has four lines, so the search from line 400 finds nothing, and a record is returned.
\<close>

theorem ginzberg_without_start_marker:
  "ginzbergStart [''I'', ''CHAPTER TITLE'', ''SECTION TITLE'', replicate 101 CHR ''a''] = 0 \<and>
   fst (parseGinzbergFile (joinWith [nl]
      [''I'', ''CHAPTER TITLE'', ''SECTION TITLE'', replicate 101 CHR ''a'']) 1) =
     [''  Content starts at line 0''] \<and>
   map title (snd (parseGinzbergFile (joinWith [nl]
      [''I'', ''CHAPTER TITLE'', ''SECTION TITLE'', replicate 101 CHR ''a'']) 1)) =
     [''Section Title'']"
proof -
  let ?ls = "[''I'', ''CHAPTER TITLE'', ''SECTION TITLE'', replicate 101 CHR ''a'']"
  have ne: "?ls \<noteq> []" by simp
  have nl: "\<forall>l \<in> set ?ls. nl \<notin> set l" by (simp add: nl_def)
  have le: "length ?ls \<le> 400" by simp
  have s0: "ginzbergStart ?ls = 0" by (simp add: ginzbergStart_def)
  have dr: "map title (saveMythG (ginzbergLoop 1 ginzbergInit (map trim ?ls))) = [''Section Title'']"
    by code_simp
  show ?thesis
    unfolding ginzberg_short_file[OF ne nl le] fst_conv snd_conv map_title_postGinzberg dr
    using s0 by simp
qed

section \<open>The claims on the segmenter of the first source\<close>







section \<open>The claim on the aggregated corpus\<close>

text \<open>
  Claim C7: in the database that \<open>main\<close> assembles, the theme options are exactly the themes
  with a count above 0, each once, in an order of descending count, and these are the
  themes that occur in a record; the book options are exactly the books with a count
  above 0, each once, in lexicographic order, and these are the non-empty book labels of
  the records.
\<close>

theorem filter_options_match_stats:
  "(let db = main now schwartzContent ginzberg1Content ginzberg2Content;
        st = dbStats db; fo = dbFilterOptions db
    in set (themeOptions fo) = {t. 0 < countOf (themeCounts st) t} \<and>
       distinct (themeOptions fo) \<and>
       sorted_wrt (\<lambda>x y. countOf (themeCounts st) y \<le> countOf (themeCounts st) x) (themeOptions fo) \<and>
       {t. 0 < countOf (themeCounts st) t} = (\<Union>m \<in> set (allMyths db). set (themes m)) \<and>
       set (bookOptions fo) = {b. 0 < countOf (bookCounts st) b} \<and>
       distinct (bookOptions fo) \<and> sorted (bookOptions fo) \<and>
       {b. 0 < countOf (bookCounts st) b} = {b. b \<noteq> [] \<and> b \<in> book ` set (allMyths db)})"
  unfolding main_def by (rule assemble_filterOptions)

end
